theory Spec2Isabelle
  imports Complex_Main "HOL-Library.Product_Lexorder"
begin

section \<open>Probabilistic reconciliation samplers of hierarchicalforecast\<close>

text \<open>
  A shallow embedding of \<^verbatim>\<open>hierarchicalforecast/probabilistic_methods.py\<close>: the three
  sampler classes \<^verbatim>\<open>Normality\<close>, \<^verbatim>\<open>Bootstrap\<close> and \<^verbatim>\<open>PERMBU\<close>.

  Conventions of the embedding.
  \<^item> A two-dimensional array is the list of its rows, a three-dimensional one the list of
    its planes. Arrays are rectangular; an array without rows is taken to have no columns.
  \<^item> Arithmetic is over the reals, where the sums and products of the samplers are exact.
    The rounding of 64-bit floats is modelled for the prediction intervals of
    \<^verbatim>\<open>Normality\<close>, which take their arithmetic as a parameter; elsewhere an equality of
    computed numbers is an equality up to rounding in the code.
    The in-sample arrays may hold missing values (NaN), so their cells are
    \<open>real option\<close> with \<open>None\<close> for NaN.
  \<^item> Every exception is a value \<open>Inl e\<close> of the result type.
  \<^item> Binary operations on arrays are defined for operands of one shape and raise
    \<open>ValueError\<close> otherwise; numpy's stretching of axes of length one is modelled only
    where noted.
\<close>

subsection \<open>Exceptions and arrays\<close>

datatype py_error = ValueError | TypeError | IndexError | KeyError | AxisError

type_synonym vec = "real list"
type_synonym mat = "real list list"
type_synonym tensor3 = "real list list list"
type_synonym nanmat = "real option list list"

definition ncols :: "'a list list \<Rightarrow> nat" where
  "ncols A = (case A of [] \<Rightarrow> 0 | r # _ \<Rightarrow> length r)"

text \<open>\<open>is_matrix r c A\<close>: the array \<open>A\<close> has shape \<open>(r, c)\<close>.\<close>

definition is_matrix :: "nat \<Rightarrow> nat \<Rightarrow> 'a list list \<Rightarrow> bool" where
  "is_matrix r c A = (length A = r \<and> (\<forall>row \<in> set A. length row = c))"

text \<open>\<open>is_tensor n h b X\<close>: the array \<open>X\<close> has shape \<open>(n, h, b)\<close>.\<close>

definition is_tensor :: "nat \<Rightarrow> nat \<Rightarrow> nat \<Rightarrow> 'a list list list \<Rightarrow> bool" where
  "is_tensor n h b X = (length X = n \<and> (\<forall>plane \<in> set X. is_matrix h b plane))"

text \<open>Sequencing of computations that may raise.\<close>

definition bind_err :: "'e + 'a \<Rightarrow> ('a \<Rightarrow> 'e + 'b) \<Rightarrow> 'e + 'b" where
  "bind_err m f = (case m of Inl e \<Rightarrow> Inl e | Inr x \<Rightarrow> f x)"

fun traverse :: "('a \<Rightarrow> 'e + 'b) \<Rightarrow> 'a list \<Rightarrow> 'e + 'b list" where
  "traverse f [] = Inr []"
| "traverse f (x # xs) =
     (case f x of Inl e \<Rightarrow> Inl e
      | Inr y \<Rightarrow> (case traverse f xs of Inl e \<Rightarrow> Inl e | Inr ys \<Rightarrow> Inr (y # ys)))"

text \<open>\<open>column A t\<close> is \<^verbatim>\<open>A[:, t]\<close>, and \<open>arange k\<close> is \<^verbatim>\<open>np.arange(k)\<close>, empty for \<open>k \<le> 0\<close>.\<close>

definition column :: "'a list list \<Rightarrow> nat \<Rightarrow> 'a list" where
  "column A t = map (\<lambda>r. r ! t) A"

definition arange :: "int \<Rightarrow> nat list" where
  "arange k = [0..<nat k]"

text \<open>
  \<^verbatim>\<open>A @ B\<close> for two matrices and for a matrix and a vector. numpy raises \<open>ValueError\<close>
  when the inner dimensions differ.
\<close>

definition matmul :: "mat \<Rightarrow> mat \<Rightarrow> py_error + mat" where
  "matmul A B =
     (if ncols A \<noteq> length B then Inl ValueError
      else Inr (map (\<lambda>r. map (\<lambda>j. \<Sum>k<length B. r ! k * B ! k ! j) [0..<ncols B]) A))"

definition matvec :: "mat \<Rightarrow> vec \<Rightarrow> py_error + vec" where
  "matvec A x =
     (if ncols A \<noteq> length x then Inl ValueError
      else Inr (map (\<lambda>r. \<Sum>k<length x. r ! k * x ! k) A))"

definition mat_add :: "mat \<Rightarrow> mat \<Rightarrow> py_error + mat" where
  "mat_add A B =
     (if length A \<noteq> length B \<or> ncols A \<noteq> ncols B then Inl ValueError
      else Inr (map2 (map2 (+)) A B))"

text \<open>Subtraction of arrays with missing values: NaN propagates.\<close>

definition nan_sub :: "nanmat \<Rightarrow> nanmat \<Rightarrow> py_error + nanmat" where
  "nan_sub A B =
     (if length A \<noteq> length B \<or> ncols A \<noteq> ncols B then Inl ValueError
      else Inr (map2 (map2 (\<lambda>a b. case (a, b) of (Some x, Some y) \<Rightarrow> Some (x - y) | _ \<Rightarrow> None))
                  A B))"

text \<open>
  \<^verbatim>\<open>residuals[:, np.isnan(residuals).sum(axis=0) == 0]\<close>: the columns without any NaN are
  kept, in their order. The cells that remain are numbers.
\<close>

definition nan_free_columns :: "nanmat \<Rightarrow> nat list" where
  "nan_free_columns R = filter (\<lambda>t. \<forall>r \<in> set R. r ! t \<noteq> None) [0..<ncols R]"

definition complete_columns :: "nanmat \<Rightarrow> mat" where
  "complete_columns R = map (\<lambda>r. map (\<lambda>t. the (r ! t)) (nan_free_columns R)) R"

text \<open>\<^verbatim>\<open>arr.transpose((1, 2, 0))\<close> of an array of shape \<open>(b, n, h)\<close>.\<close>

definition transpose_120 :: "nat \<Rightarrow> nat \<Rightarrow> 'a list list list \<Rightarrow> 'a list list list" where
  "transpose_120 n h arr = map (\<lambda>i. map (\<lambda>t. map (\<lambda>M. M ! i ! t) arr) [0..<h]) [0..<n]"

subsection \<open>Pseudorandom generators\<close>

text \<open>
  The Mersenne Twister behind \<^verbatim>\<open>np.random.RandomState\<close> is not modelled. A generator
  state is the sequence of variates it is going to yield: raw integers, from which bounded
  integers are taken by reduction, and standard normal variates. A draw reads the front of
  the sequence and returns the state advanced past what it read. The map from a seed to
  the state that \<^verbatim>\<open>RandomState(seed)\<close> starts in is a parameter \<open>RandomState\<close> of every
  function that seeds a generator. The process-wide generator behind \<^verbatim>\<open>np.random.choice\<close>
  and \<^verbatim>\<open>np.random.permutation\<close> is a state of the same type, passed in and returned.
\<close>

record rng =
  raw :: "nat \<Rightarrow> nat"
  gauss :: "nat \<Rightarrow> real"

definition skip_raw :: "nat \<Rightarrow> rng \<Rightarrow> rng" where
  "skip_raw n g = g\<lparr>raw := \<lambda>k. raw g (k + n)\<rparr>"

definition skip_gauss :: "nat \<Rightarrow> rng \<Rightarrow> rng" where
  "skip_gauss n g = g\<lparr>gauss := \<lambda>k. gauss g (k + n)\<rparr>"

text \<open>
  \<^verbatim>\<open>choice(a, size=n)\<close> draws \<open>n\<close> items of \<open>a\<close> with replacement; numpy raises
  \<open>ValueError\<close> when \<open>a\<close> is empty and a sample is asked for.
\<close>

definition choice :: "rng \<Rightarrow> 'a list \<Rightarrow> nat \<Rightarrow> (py_error + 'a list) \<times> rng" where
  "choice g a n =
     (if a = [] \<and> n \<noteq> 0 then (Inl ValueError, g)
      else (Inr (map (\<lambda>k. a ! (raw g k mod length a)) [0..<n]), skip_raw n g))"

subsection \<open>Bootstrap\<close>

record bootstrap =
  bs_S :: mat
  bs_P :: mat
  bs_W :: "mat option"
  bs_y_hat :: mat
  bs_y_insample :: nanmat
  bs_y_hat_insample :: nanmat
  bs_num_samples :: "nat option"
  bs_seed :: int


text \<open>
  \<^verbatim>\<open>np.apply_along_axis(lambda path: np.matmul(SP, path), axis=1, arr=samples)\<close> on the list
  of \<open>b\<close> sample paths of shape \<open>(n, h)\<close>: every column of every path is replaced by \<open>SP\<close>
  applied to it. numpy raises \<open>AxisError\<close> when the list is empty (the array then has one
  axis only) and \<open>ValueError\<close> when there is no column to iterate over.
\<close>

definition apply_along_axis_1 :: "(vec \<Rightarrow> py_error + vec) \<Rightarrow> nat \<Rightarrow> mat list \<Rightarrow> py_error + mat list" where
  "apply_along_axis_1 f h arr =
     (if arr = [] then Inl AxisError
      else if h = 0 then Inl ValueError
      else traverse (\<lambda>M. bind_err (traverse (\<lambda>t. f (column M t)) [0..<h])
                           (\<lambda>cols. Inr (map (\<lambda>i. map (\<lambda>c. c ! i) cols) [0..<length (hd cols)])))
             arr)"

text \<open>
  \<^verbatim>\<open>Bootstrap.get_samples\<close>. With \<^verbatim>\<open>num_samples=None\<close>, \<^verbatim>\<open>choice\<close> returns a scalar (or
  raises on an empty range) and the comprehension over it raises \<open>TypeError\<close>.
\<close>

definition Bootstrap_get_samples :: "(int \<Rightarrow> rng) \<Rightarrow> bootstrap \<Rightarrow> nat option \<Rightarrow> py_error + tensor3" where
  "Bootstrap_get_samples RandomState self num_samples =
     bind_err (nan_sub (bs_y_insample self) (bs_y_hat_insample self)) (\<lambda>residuals.
     let h = ncols (bs_y_hat self);
         residuals = complete_columns residuals;
         sample_idx = arange (int (ncols residuals) - int h);
         state = RandomState (bs_seed self)
     in bind_err (case num_samples of
                    None \<Rightarrow> (if sample_idx = [] then Inl ValueError else Inl TypeError)
                  | Some n \<Rightarrow> fst (choice state sample_idx n)) (\<lambda>samples_idx.
        bind_err (traverse (\<lambda>idx. mat_add (bs_y_hat self) (map (\<lambda>r. take h (drop idx r)) residuals))
                    samples_idx) (\<lambda>samples.
        bind_err (matmul (bs_S self) (bs_P self)) (\<lambda>SP.
        bind_err (apply_along_axis_1 (matvec SP) h samples) (\<lambda>samples.
        Inr (transpose_120 (length SP) h samples))))))"

subsection \<open>Normality\<close>

text \<open>
  \<^verbatim>\<open>np.sqrt\<close> of a negative number is NaN, so the reconciled standard deviations, and the
  arrays of the result mapping computed from them, are arrays with missing values.
\<close>

record normality =
  nm_S :: mat
  nm_P :: mat
  nm_y_hat :: mat
  nm_SP :: mat
  nm_W :: mat
  nm_sigmah :: mat
  nm_seed :: int
  nm_cov_rec :: "mat list"
  nm_sigmah_rec :: nanmat

definition transposeM :: "'a list list \<Rightarrow> 'a list list" where
  "transposeM A = map (column A) [0..<ncols A]"

text \<open>\<^verbatim>\<open>np.diag\<close> of a vector is the diagonal matrix, of a matrix its diagonal.\<close>

definition diag_of_vec :: "vec \<Rightarrow> mat" where
  "diag_of_vec v = map (\<lambda>i. map (\<lambda>j. if i = j then v ! i else 0) [0..<length v]) [0..<length v]"

definition diag_of_mat :: "mat \<Rightarrow> vec" where
  "diag_of_mat A = map (\<lambda>i. A ! i ! i) [0..<min (length A) (ncols A)]"

definition np_sqrt :: "real \<Rightarrow> real option" where
  "np_sqrt x = (if x < 0 then None else Some (sqrt x))"

text \<open>\<^verbatim>\<open>np.hstack\<close> of column vectors; it raises \<open>ValueError\<close> on an empty list.\<close>

definition hstack_columns :: "'a list list \<Rightarrow> py_error + 'a list list" where
  "hstack_columns cols =
     (if cols = [] \<or> (\<exists>c \<in> set cols. length c \<noteq> length (hd cols)) then Inl ValueError
      else Inr (map (\<lambda>i. map (\<lambda>c. c ! i) cols) [0..<length (hd cols)]))"

text \<open>
  \<^verbatim>\<open>Normality.__init__\<close>. \<^verbatim>\<open>cov2corr\<close> lives in the absent \<^verbatim>\<open>utils.py\<close> and is a parameter.
\<close>

text \<open>
  Modelled from the spec: \<^verbatim>\<open>cov2corr\<close> of the absent \<^verbatim>\<open>utils.py\<close>, in the spec's words
  "convert \<open>W\<close> to a correlation matrix (divide by outer product of standard deviations)",
  for a square matrix with a positive diagonal. It serves as a concrete converter where
  one is needed; the constructor itself is stated for any converter.
\<close>

definition cov2corr_spec :: "mat \<Rightarrow> py_error + mat" where
  "cov2corr_spec W =
     (if length W \<noteq> ncols W then Inl ValueError
      else Inr (map (\<lambda>i. map (\<lambda>j. W ! i ! j / (sqrt (W ! i ! i) * sqrt (W ! j ! j))) [0..<length W])
                  [0..<length W]))"

definition Normality_init ::
  "(mat \<Rightarrow> py_error + mat) \<Rightarrow> mat \<Rightarrow> mat \<Rightarrow> mat \<Rightarrow> mat \<Rightarrow> mat \<Rightarrow> int \<Rightarrow> py_error + normality" where
  "Normality_init cov2corr S P y_hat sigmah W seed =
     bind_err (matmul S P) (\<lambda>SP.
     bind_err (cov2corr W) (\<lambda>R1.
     bind_err (traverse (\<lambda>sigma. bind_err (matmul (diag_of_vec sigma) R1)
                                   (\<lambda>A. matmul A (transposeM (diag_of_vec sigma))))
                 (transposeM sigmah)) (\<lambda>Wh.
     bind_err (traverse (\<lambda>W. bind_err (matmul SP W) (\<lambda>A. matmul A (transposeM SP))) Wh) (\<lambda>cov_rec.
     bind_err (hstack_columns (map (\<lambda>cov. map np_sqrt (diag_of_mat cov)) cov_rec)) (\<lambda>sigmah_rec.
     Inr \<lparr>nm_S = S, nm_P = P, nm_y_hat = y_hat, nm_SP = SP, nm_W = W, nm_sigmah = sigmah,
          nm_seed = seed, nm_cov_rec = cov_rec, nm_sigmah_rec = sigmah_rec\<rparr>)))))"

text \<open>
  \<^verbatim>\<open>state.multivariate_normal(mean, cov, size=n)\<close>: numpy checks that \<open>cov\<close> is square of
  the length of \<open>mean\<close>, draws \<open>n\<close> rows of standard normal variates and maps each row \<open>z\<close>
  to \<open>z F + mean\<close>, where \<open>F\<close> comes from the singular value decomposition of \<open>cov\<close>.
  The decomposition is a library routine; \<open>cov_factor\<close> is the parameter that yields \<open>F\<close>.
\<close>

definition multivariate_normal ::
  "(mat \<Rightarrow> mat) \<Rightarrow> rng \<Rightarrow> vec \<Rightarrow> mat \<Rightarrow> nat \<Rightarrow> (py_error + mat) \<times> rng" where
  "multivariate_normal cov_factor g mean cov n =
     (let d = length mean in
      if \<not> is_matrix d d cov then (Inl ValueError, g)
      else (Inr (map (\<lambda>k. map (\<lambda>j. (\<Sum>i<d. gauss g (k * d + i) * cov_factor cov ! i ! j) + mean ! j)
                              [0..<d]) [0..<n]),
            skip_gauss (n * d) g))"

text \<open>
  The loop over the horizon of \<^verbatim>\<open>Normality.get_samples\<close>; it returns the arrays assigned to
  \<^verbatim>\<open>samples[:,:,t]\<close>. The assignment takes an array of shape \<open>(n, n_series)\<close>, and
  stretches one of shape \<open>(n, 1)\<close>.
\<close>

fun Normality_horizon ::
  "(mat \<Rightarrow> mat) \<Rightarrow> normality \<Rightarrow> nat \<Rightarrow> rng \<Rightarrow> nat list \<Rightarrow> py_error + mat list" where
  "Normality_horizon cov_factor self n state [] = Inr []"
| "Normality_horizon cov_factor self n state (t # ts) =
     (case matvec (nm_SP self) (column (nm_y_hat self) t) of
        Inl e \<Rightarrow> Inl e
      | Inr mean \<Rightarrow>
          if length (nm_cov_rec self) \<le> t then Inl IndexError
          else (case multivariate_normal cov_factor state mean (nm_cov_rec self ! t) n of
                  (Inl e, _) \<Rightarrow> Inl e
                | (Inr partial_samples, state') \<Rightarrow>
                    if length mean \<noteq> length (nm_y_hat self) \<and> length mean \<noteq> 1 then Inl ValueError
                    else (case Normality_horizon cov_factor self n state' ts of
                            Inl e \<Rightarrow> Inl e
                          | Inr rest \<Rightarrow>
                              Inr ((if length mean = length (nm_y_hat self) then partial_samples
                                    else map (\<lambda>row. replicate (length (nm_y_hat self)) (hd row))
                                           partial_samples) # rest))))"

text \<open>
  \<^verbatim>\<open>Normality.get_samples\<close>. The generator is made from the stored seed inside the call.
  \<^verbatim>\<open>np.empty\<close> raises \<open>TypeError\<close> for \<^verbatim>\<open>num_samples=None\<close>.
\<close>

definition Normality_get_samples ::
  "(int \<Rightarrow> rng) \<Rightarrow> (mat \<Rightarrow> mat) \<Rightarrow> normality \<Rightarrow> nat option \<Rightarrow> py_error + tensor3" where
  "Normality_get_samples RandomState cov_factor self num_samples =
     (let state = RandomState (nm_seed self);
          n_series = length (nm_y_hat self);
          n_horizon = ncols (nm_y_hat self)
      in case num_samples of
           None \<Rightarrow> Inl TypeError
         | Some n \<Rightarrow>
             bind_err (Normality_horizon cov_factor self n state [0..<n_horizon]) (\<lambda>parts.
             Inr (map (\<lambda>i. map (\<lambda>t. map (\<lambda>k. parts ! t ! k ! i) [0..<n]) [0..<n_horizon])
                    [0..<n_series])))"

subsection \<open>Arithmetic of the prediction intervals\<close>

text \<open>
  numpy computes the prediction intervals in float64: every sum, difference, product and
  quotient is the exact one, rounded to the nearest double, a tie going to the even
  significand. \<open>binary64\<close> is that rounding for the normal and the subnormal doubles: the
  exponent is the one of \<open>x\<close>, not below \<open>-1022\<close>, and the significand has 52 binary places.
  Results of magnitude \<open>2 ^ 1024\<close> and above, which float64 turns into infinities, are
  outside it. The prediction intervals take their arithmetic as a parameter: \<open>float64\<close> is
  the arithmetic of the code, \<open>exact\<close> the arithmetic of the real numbers.
\<close>

definition round_half_even :: "real \<Rightarrow> int" where
  "round_half_even x =
     (let n = \<lfloor>x\<rfloor>; d = x - of_int n
      in if d < 1 / 2 then n else if 1 / 2 < d then n + 1 else if even n then n else n + 1)"

definition binary64 :: "real \<Rightarrow> real" where
  "binary64 x =
     (if x = 0 then 0
      else let e = max \<lfloor>log 2 \<bar>x\<bar>\<rfloor> (- 1022)
           in of_int (round_half_even (x * 2 powi (52 - e))) * 2 powi (e - 52))"

record arith =
  fadd :: "real \<Rightarrow> real \<Rightarrow> real"
  fsub :: "real \<Rightarrow> real \<Rightarrow> real"
  fmul :: "real \<Rightarrow> real \<Rightarrow> real"
  fdiv :: "real \<Rightarrow> real \<Rightarrow> real"

definition exact :: arith where
  "exact = \<lparr>fadd = (+), fsub = (-), fmul = (*), fdiv = (/)\<rparr>"

definition float64 :: arith where
  "float64 = \<lparr>fadd = (\<lambda>x y. binary64 (x + y)), fsub = (\<lambda>x y. binary64 (x - y)),
              fmul = (\<lambda>x y. binary64 (x * y)), fdiv = (\<lambda>x y. binary64 (x / y))\<rparr>"

subsection \<open>The result mapping\<close>

text \<open>
  The keys \<^verbatim>\<open>'mean'\<close>, \<^verbatim>\<open>'sigmah'\<close>, \<^verbatim>\<open>'quantiles'\<close>, \<^verbatim>\<open>f'lo-{lv}'\<close> and \<^verbatim>\<open>f'hi-{lv}'\<close>;
  the formatted level is kept as the number it prints.
\<close>

datatype key = Mean | Sigmah | Quantiles | Lo real | Hi real

datatype ndarray = A2 nanmat | A3 "real option list list list"

type_synonym res = "key \<rightharpoonup> ndarray"

definition nan_op :: "(real \<Rightarrow> real \<Rightarrow> real) \<Rightarrow> real option \<Rightarrow> real option \<Rightarrow> real option" where
  "nan_op f a b = (case (a, b) of (Some x, Some y) \<Rightarrow> Some (f x y) | _ \<Rightarrow> None)"

definition nanmat_op :: "(real \<Rightarrow> real \<Rightarrow> real) \<Rightarrow> nanmat \<Rightarrow> nanmat \<Rightarrow> py_error + nanmat" where
  "nanmat_op f A B =
     (if length A \<noteq> length B \<or> ncols A \<noteq> ncols B then Inl ValueError
      else Inr (map2 (map2 (nan_op f)) A B))"

text \<open>\<^verbatim>\<open>z * A\<close> for a number and an array, with the multiplication \<open>mul\<close>.\<close>

definition nanmat_scale :: "(real \<Rightarrow> real \<Rightarrow> real) \<Rightarrow> real \<Rightarrow> nanmat \<Rightarrow> nanmat" where
  "nanmat_scale mul z A = map (map (map_option (mul z))) A"

text \<open>
  \<^verbatim>\<open>Normality.get_prediction_levels\<close>, in the arithmetic \<open>ar\<close>. \<^verbatim>\<open>norm.ppf\<close> is the library's
  inverse normal distribution function, the parameter \<open>ppf\<close>. Reading \<^verbatim>\<open>res['mean']\<close> raises
  \<open>KeyError\<close> when the key is missing, and a three-dimensional mean does not fit the
  standard deviations. The product \<^verbatim>\<open>zs * self.sigmah_rec\<close> is computed once for the lower
  and once for the upper array.
\<close>

fun Normality_levels_loop ::
  "arith \<Rightarrow> normality \<Rightarrow> res \<Rightarrow> (real \<times> real) list \<Rightarrow> py_error + res" where
  "Normality_levels_loop ar self res [] = Inr res"
| "Normality_levels_loop ar self res ((zs, lv) # rest) =
     (case res Mean of
        None \<Rightarrow> Inl KeyError
      | Some (A3 _) \<Rightarrow> Inl ValueError
      | Some (A2 mean) \<Rightarrow>
          bind_err (nanmat_op (fsub ar) mean (nanmat_scale (fmul ar) zs (nm_sigmah_rec self))) (\<lambda>lo.
          let res = res(Lo lv \<mapsto> A2 lo) in
          case res Mean of
            None \<Rightarrow> Inl KeyError
          | Some (A3 _) \<Rightarrow> Inl ValueError
          | Some (A2 mean) \<Rightarrow>
              bind_err (nanmat_op (fadd ar) mean (nanmat_scale (fmul ar) zs (nm_sigmah_rec self)))
                (\<lambda>hi.
              Normality_levels_loop ar self (res(Hi lv \<mapsto> A2 hi)) rest)))"

definition Normality_get_prediction_levels ::
  "arith \<Rightarrow> (real \<Rightarrow> real) \<Rightarrow> normality \<Rightarrow> res \<Rightarrow> real list \<Rightarrow> py_error + res" where
  "Normality_get_prediction_levels ar ppf self res level =
     (let res = res(Sigmah \<mapsto> A2 (nm_sigmah_rec self));
          z = map (\<lambda>lv. ppf (fadd ar (1 / 2) (fdiv ar lv 200))) level
      in Normality_levels_loop ar self res (zip z level))"


subsection \<open>Empirical quantiles\<close>

text \<open>
  \<^verbatim>\<open>np.quantile\<close> with its default linear interpolation between order statistics, on a
  non-empty sample and for a probability in \<open>[0, 1]\<close>; numpy raises \<open>ValueError\<close> for a
  probability outside. (On an empty sample numpy yields NaN; the samplers below never
  pass one on without having raised.)
\<close>

definition quantile_linear :: "real list \<Rightarrow> real \<Rightarrow> real" where
  "quantile_linear a q =
     (let xs = sort a;
          v = q * real (length xs - 1);
          lo = nat \<lfloor>v\<rfloor>;
          hi = min (lo + 1) (length xs - 1)
      in xs ! lo + (xs ! hi - xs ! lo) * (v - real lo))"

text \<open>
  \<^verbatim>\<open>np.quantile(samples, quantiles, axis=2)\<close> followed by \<^verbatim>\<open>transpose((1, 2, 0))\<close>: one
  quantile per requested probability along the last axis.
\<close>

definition sample_quantiles :: "tensor3 \<Rightarrow> real list \<Rightarrow> py_error + real option list list list" where
  "sample_quantiles samples quantiles =
     (if \<exists>q \<in> set quantiles. q < 0 \<or> 1 < q then Inl ValueError
      else Inr (map (map (\<lambda>cell. map (\<lambda>q. Some (quantile_linear cell q)) quantiles)) samples))"

text \<open>\<^verbatim>\<open>Bootstrap.get_prediction_levels\<close> and \<^verbatim>\<open>Bootstrap.get_prediction_quantiles\<close>.\<close>

fun levels_from_samples :: "tensor3 \<Rightarrow> res \<Rightarrow> real list \<Rightarrow> py_error + res" where
  "levels_from_samples samples res [] = Inr res"
| "levels_from_samples samples res (lv # rest) =
     (let min_q = (100 - lv) / 200;
          max_q = min_q + lv / 100
      in if min_q < 0 \<or> 1 < min_q then Inl ValueError
         else let res = res(Lo lv \<mapsto> A2 (map (map (\<lambda>cell. Some (quantile_linear cell min_q))) samples))
              in if max_q < 0 \<or> 1 < max_q then Inl ValueError
                 else levels_from_samples samples
                        (res(Hi lv \<mapsto> A2 (map (map (\<lambda>cell. Some (quantile_linear cell max_q))) samples)))
                        rest)"



subsection \<open>PERMBU: construction\<close>

type_synonym tags = "(string \<times> nat list) list"

text \<open>
  Modelled from the spec: \<^verbatim>\<open>is_strictly_hierarchical\<close> of \<^verbatim>\<open>utils.py\<close>, which is not among
  the sources. In the spec's words a structure is strictly hierarchical when "each bottom
  series has exactly one ancestor per level" and it is "representable as a tree (no
  cross-links)", so that "each non-root series has exactly one parent". A row of \<open>S\<close>
  stands for the set of bottom series it sums. Two rows are cross-linked when they share a
  bottom series and neither holds all of the other's: a series below both would have two
  parents. The tags give the rows of every level.
\<close>

definition descendants :: "mat \<Rightarrow> nat \<Rightarrow> nat list" where
  "descendants S i = filter (\<lambda>j. S ! i ! j \<noteq> 0) [0..<ncols S]"

definition cross_linked :: "mat \<Rightarrow> nat \<Rightarrow> nat \<Rightarrow> bool" where
  "cross_linked S i k =
     (list_ex (\<lambda>j. j \<in> set (descendants S k)) (descendants S i) \<and>
      list_ex (\<lambda>j. j \<notin> set (descendants S k)) (descendants S i) \<and>
      list_ex (\<lambda>j. j \<notin> set (descendants S i)) (descendants S k))"

definition one_ancestor_per_level :: "mat \<Rightarrow> tags \<Rightarrow> bool" where
  "one_ancestor_per_level S tgs =
     list_all (\<lambda>level. list_all (\<lambda>j. length (filter (\<lambda>i. S ! i ! j \<noteq> 0) (snd level)) = 1)
                          [0..<ncols S]) tgs"

definition tagged_rows :: "tags \<Rightarrow> nat list" where
  "tagged_rows tgs = concat (map snd tgs)"

definition is_strictly_hierarchical :: "mat \<Rightarrow> tags \<Rightarrow> bool" where
  "is_strictly_hierarchical S tgs =
     (one_ancestor_per_level S tgs \<and>
      \<not> list_ex (\<lambda>i. list_ex (\<lambda>k. cross_linked S i k) (tagged_rows tgs)) (tagged_rows tgs))"

record permbu =
  pb_S :: mat
  pb_P :: "mat option"
  pb_y_hat :: mat
  pb_y_insample :: nanmat
  pb_y_hat_insample :: nanmat
  pb_sigmah :: mat
  pb_num_samples :: "nat option"
  pb_seed :: int

text \<open>\<^verbatim>\<open>PERMBU.__init__\<close>: the check comes first, the fields are assigned after it.\<close>

definition PERMBU_init ::
  "mat \<Rightarrow> tags \<Rightarrow> mat \<Rightarrow> nanmat \<Rightarrow> nanmat \<Rightarrow> mat \<Rightarrow> nat option \<Rightarrow> int \<Rightarrow> mat option \<Rightarrow>
   py_error + permbu" where
  "PERMBU_init S tgs y_hat y_insample y_hat_insample sigmah num_samples seed P =
     (if \<not> is_strictly_hierarchical S tgs then Inl ValueError
      else Inr \<lparr>pb_S = S, pb_P = P, pb_y_hat = y_hat, pb_y_insample = y_insample,
                pb_y_hat_insample = y_hat_insample, pb_sigmah = sigmah,
                pb_num_samples = num_samples, pb_seed = seed\<rparr>)"

subsection \<open>PERMBU: sampling\<close>

text \<open>
  \<^verbatim>\<open>_obtain_ranks\<close>. \<open>argsort\<close> orders equal values by their index, as a stable sort does.
  \<^verbatim>\<open>ndarray.argsort\<close> uses numpy's default sort, which does not promise an order among equal
  values: the model fixes one of the orders that the code may produce, and the general
  statements below do not depend on it. The ranks are written into an array that
  \<^verbatim>\<open>np.empty_like\<close> leaves uninitialised; every cell is written, since the sorting indices
  are a permutation.
\<close>

definition argsort :: "real list \<Rightarrow> nat list" where
  "argsort xs = sort_key (\<lambda>i. xs ! i) [0..<length xs]"

definition obtain_ranks :: "mat \<Rightarrow> nat list list" where
  "obtain_ranks array =
     map (\<lambda>row. let temp = argsort row;
                    a_range = [0..<length temp]
                in fold (\<lambda>(k, j) ranks. ranks[j := k]) (zip a_range temp)
                     (replicate (length temp) 0))
       array"

text \<open>\<^verbatim>\<open>reshape(n_rows, n_cols)\<close> of flat data.\<close>

definition reshape2 :: "nat \<Rightarrow> nat \<Rightarrow> 'a list \<Rightarrow> 'a list list" where
  "reshape2 n_rows n_cols xs = map (\<lambda>r. take n_cols (drop (r * n_cols) xs)) [0..<n_rows]"

text \<open>
  \<^verbatim>\<open>_permutate_samples\<close>: the flattened samples are read at the flattened permutation
  indices, each shifted by its row's offset; an index beyond the flattened samples raises
  \<open>IndexError\<close>.
\<close>

definition permutate_samples :: "mat \<Rightarrow> nat list list \<Rightarrow> py_error + mat" where
  "permutate_samples samples permutations =
     (let n_rows = length permutations;
          n_cols = ncols permutations;
          aux_row_idx = concat (map (\<lambda>r. replicate n_cols (r * n_cols)) [0..<n_rows]);
          permutate_idxs = map2 (+) (concat permutations) aux_row_idx;
          permutated_samples = concat samples
      in if \<exists>i \<in> set permutate_idxs. length permutated_samples \<le> i then Inl IndexError
         else Inr (reshape2 n_rows n_cols (map (\<lambda>i. permutated_samples ! i) permutate_idxs)))"

text \<open>
  \<^verbatim>\<open>_permutate_predictions\<close>: for every horizon step the permuted samples are assigned to
  \<^verbatim>\<open>permutated_prediction_samples[:,t,:]\<close>, which raises \<open>ValueError\<close> when the shapes
  differ.
\<close>

definition permutate_predictions :: "tensor3 \<Rightarrow> nat list list \<Rightarrow> py_error + tensor3" where
  "permutate_predictions prediction_samples permutations =
     (let n_horizon = ncols prediction_samples in
      bind_err (traverse (\<lambda>t. bind_err (permutate_samples (column prediction_samples t) permutations)
                                (\<lambda>M. if is_matrix (length prediction_samples)
                                           (ncols (column prediction_samples t)) M
                                      then Inr M else Inl ValueError))
                  [0..<n_horizon]) (\<lambda>Ms.
      Inr (map (\<lambda>r. map (\<lambda>t. Ms ! t ! r) [0..<n_horizon]) [0..<length prediction_samples])))"

definition nonzero_indexes_by_row :: "mat \<Rightarrow> nat list list" where
  "nonzero_indexes_by_row M = map (\<lambda>row. filter (\<lambda>i. row ! i \<noteq> 0) [0..<length row]) M"

text \<open>\<^verbatim>\<open>np.vstack\<close> raises \<open>ValueError\<close> on no rows and on rows of different lengths.\<close>

definition vstack :: "'a list list \<Rightarrow> py_error + 'a list list" where
  "vstack rows =
     (if rows = [] \<or> (\<exists>r \<in> set rows. length r \<noteq> length (hd rows)) then Inl ValueError
      else Inr rows)"

text \<open>\<^verbatim>\<open>np.unique\<close>: the distinct items in increasing order (rows in lexicographic order).\<close>

definition unique :: "'a::linorder list \<Rightarrow> 'a list" where
  "unique xs = sort (remdups xs)"

text \<open>
  \<^verbatim>\<open>state.normal(loc, scale, size=n)\<close> raises \<open>ValueError\<close> for a negative scale.
  \<^verbatim>\<open>np.random.permutation\<close> shuffles \<^verbatim>\<open>arange(n)\<close> from the last position down, swapping
  position \<open>i\<close> with a position drawn from \<open>0..i\<close>.
\<close>

definition normal :: "rng \<Rightarrow> real \<Rightarrow> real \<Rightarrow> nat \<Rightarrow> (py_error + vec) \<times> rng" where
  "normal g loc scale n =
     (if scale < 0 then (Inl ValueError, g)
      else (Inr (map (\<lambda>k. loc + scale * gauss g k) [0..<n]), skip_gauss n g))"

definition permutation :: "rng \<Rightarrow> nat \<Rightarrow> nat list \<times> rng" where
  "permutation g n =
     (fold (\<lambda>(k, i) x. let j = raw g k mod (i + 1) in x[i := x ! j, j := x ! i])
        (zip [0..<n - 1] (rev [1..<n])) [0..<n],
      skip_raw (n - 1) g)"

fun base_draws :: "rng \<Rightarrow> (real \<times> real) list \<Rightarrow> nat \<Rightarrow> py_error + mat" where
  "base_draws state [] n = Inr []"
| "base_draws state ((m, s) # rest) n =
     (case normal state m s n of
        (Inl e, _) \<Rightarrow> Inl e
      | (Inr v, state') \<Rightarrow>
          (case base_draws state' rest n of Inl e \<Rightarrow> Inl e | Inr vs \<Rightarrow> Inr (v # vs)))"

fun random_permutations :: "rng \<Rightarrow> nat \<Rightarrow> nat \<Rightarrow> nat list list \<times> rng" where
  "random_permutations g n 0 = ([], g)"
| "random_permutations g n (Suc m) =
     (let (p, g1) = permutation g n;
          (ps, g2) = random_permutations g1 n m
      in (p # ps, g2))"

text \<open>
  One pass of the loop over the hierarchy levels. \<open>Agg\<close> is what the one-hot encoding of
  the parent column of \<open>children_links\<close> gives: a row per distinct parent, a column per
  link. \<^verbatim>\<open>np.einsum\<close> raises \<open>ValueError\<close> unless there are as many links as children.
\<close>

definition PERMBU_level ::
  "nat list list \<Rightarrow> nat list list \<Rightarrow> nat \<Rightarrow> nat \<Rightarrow> tensor3 \<Rightarrow> rng \<Rightarrow> (py_error + tensor3) \<times> rng" where
  "PERMBU_level hier_links rank_permutations num_samples level_idx rec_samples g =
     (let children_links = unique (map (\<lambda>r. (r ! level_idx, r ! (level_idx + 1))) hier_links);
          children_idxs = unique (map snd children_links);
          parent_idxs = unique (map fst children_links);
          Agg = map (\<lambda>p. map (\<lambda>l. if fst l = p then 1 else (0::real)) children_links) parent_idxs
      in if \<exists>c \<in> set children_idxs. length rank_permutations \<le> c then (Inl IndexError, g)
         else if \<exists>c \<in> set children_idxs. length rec_samples \<le> c then (Inl IndexError, g)
         else
           (case permutate_predictions (map (\<lambda>c. rec_samples ! c) children_idxs)
                   (map (\<lambda>c. rank_permutations ! c) children_idxs) of
              Inl e \<Rightarrow> (Inl e, g)
            | Inr childrenum_samples \<Rightarrow>
                if length children_links \<noteq> length childrenum_samples then (Inl ValueError, g)
                else
                  (let parent_samples =
                         map (\<lambda>a. map (\<lambda>h. map (\<lambda>s. (\<Sum>b<length childrenum_samples.
                                                         (a ! b) * (childrenum_samples ! b ! h ! s)))
                                              [0..<ncols (column childrenum_samples h)])
                                    [0..<ncols childrenum_samples]) Agg;
                       drawn = random_permutations g num_samples (length parent_samples);
                       random_permutation = fst drawn;
                       g' = snd drawn
                   in (case permutate_predictions parent_samples random_permutation of
                         Inl e \<Rightarrow> (Inl e, g')
                       | Inr parent_samples \<Rightarrow>
                           if \<exists>p \<in> set parent_idxs. length rec_samples \<le> p then (Inl IndexError, g')
                           else if \<not> is_tensor (length parent_idxs) (ncols rec_samples)
                                      (ncols (column rec_samples 0)) parent_samples
                           then (Inl ValueError, g')
                           else (Inr (fold (\<lambda>(k, p) rec. rec[p := parent_samples ! k])
                                        (zip [0..<length parent_idxs] parent_idxs) rec_samples), g')))))"

fun PERMBU_levels ::
  "nat list list \<Rightarrow> nat list list \<Rightarrow> nat \<Rightarrow> nat list \<Rightarrow> tensor3 \<Rightarrow> rng \<Rightarrow> (py_error + tensor3) \<times> rng" where
  "PERMBU_levels hier_links rank_permutations num_samples [] rec_samples g = (Inr rec_samples, g)"
| "PERMBU_levels hier_links rank_permutations num_samples (level_idx # rest) rec_samples g =
     (case PERMBU_level hier_links rank_permutations num_samples level_idx rec_samples g of
        (Inl e, g') \<Rightarrow> (Inl e, g')
      | (Inr rec_samples', g') \<Rightarrow>
          PERMBU_levels hier_links rank_permutations num_samples rest rec_samples' g')"

text \<open>
  Python's \<^verbatim>\<open>num_samples > k\<close>: comparing \<^verbatim>\<open>None\<close> with an integer raises \<open>TypeError\<close>.
\<close>

definition py_gt :: "nat option \<Rightarrow> nat \<Rightarrow> py_error + bool" where
  "py_gt num_samples k = (case num_samples of None \<Rightarrow> Inl TypeError | Some n \<Rightarrow> Inr (k < n))"

text \<open>
  \<^verbatim>\<open>PERMBU.get_samples\<close>. The second argument is the state of the process-wide generator
  when the call starts; the state when it ends is returned with the result. The statements
  are kept in the order of the source: the comparison with the number of residual columns
  and the expansion of the residuals, the ranks, the default for \<^verbatim>\<open>num_samples\<close>, the base
  samples from the seeded generator, and the loop over the levels. The base samples are
  reshaped to \<open>(n_series, n_horizon, num_samples)\<close>, which raises \<open>ValueError\<close> when the
  sizes differ. (Were the expansion reached with \<^verbatim>\<open>num_samples=None\<close>, \<^verbatim>\<open>choice\<close> would
  return a scalar, the residuals would lose an axis and \<^verbatim>\<open>argsort(axis=1)\<close> would raise.)
\<close>

definition PERMBU_expand_residuals :: "rng \<Rightarrow> mat \<Rightarrow> nat option \<Rightarrow> bool \<Rightarrow> (py_error + mat) \<times> rng" where
  "PERMBU_expand_residuals g residuals num_samples expand =
     (if expand
      then (case num_samples of
              None \<Rightarrow> (Inl AxisError, skip_raw 1 g)
            | Some n \<Rightarrow>
                (case fst (choice g [0..<ncols residuals] n) of
                   Inl e \<Rightarrow> (Inl e, snd (choice g [0..<ncols residuals] n))
                 | Inr residuals_expansion \<Rightarrow>
                     (Inr (map (\<lambda>r. map (\<lambda>c. r ! c) residuals_expansion) residuals),
                      snd (choice g [0..<ncols residuals] n))))
      else (Inr residuals, g))"

definition PERMBU_get_samples ::
  "(int \<Rightarrow> rng) \<Rightarrow> rng \<Rightarrow> permbu \<Rightarrow> nat option \<Rightarrow> (py_error + tensor3) \<times> rng" where
  "PERMBU_get_samples RandomState g self num_samples =
     (case nan_sub (pb_y_insample self) (pb_y_hat_insample self) of
        Inl e \<Rightarrow> (Inl e, g)
      | Inr residuals \<Rightarrow>
          (let residuals = complete_columns residuals in
           (case py_gt num_samples (ncols residuals) of
              Inl e \<Rightarrow> (Inl e, g)
            | Inr expand \<Rightarrow>
                (let expanded = PERMBU_expand_residuals g residuals num_samples expand;
                     g' = snd expanded
                 in (case fst expanded of
                       Inl e \<Rightarrow> (Inl e, g')
                     | Inr residuals \<Rightarrow>
                         (let rank_permutations = obtain_ranks residuals;
                              n = (case num_samples of None \<Rightarrow> ncols residuals | Some n \<Rightarrow> n);
                              state = RandomState (pb_seed self);
                              n_series = length (pb_y_hat self);
                              n_horizon = ncols (pb_y_hat self)
                          in (case base_draws state
                                     (zip (concat (pb_y_hat self)) (concat (pb_sigmah self))) n of
                                Inl e \<Rightarrow> (Inl e, g')
                              | Inr base_samples \<Rightarrow>
                                  if length (concat base_samples) \<noteq> n_series * n_horizon * n
                                  then (Inl ValueError, g')
                                  else
                                    (let rec_samples =
                                           map (reshape2 n_horizon n)
                                             (reshape2 n_series (n_horizon * n) (concat base_samples))
                                     in (case vstack (nonzero_indexes_by_row (transposeM (pb_S self))) of
                                           Inl e \<Rightarrow> (Inl e, g')
                                         | Inr hier_links \<Rightarrow>
                                             (let hier_levels = int (ncols hier_links) - 1
                                              in PERMBU_levels hier_links rank_permutations n
                                                   (rev (arange hier_levels)) rec_samples g'))))))))))"

text \<open>\<^verbatim>\<open>PERMBU.get_prediction_levels\<close> and \<^verbatim>\<open>PERMBU.get_prediction_quantiles\<close>.\<close>

definition PERMBU_get_prediction_levels ::
  "(int \<Rightarrow> rng) \<Rightarrow> rng \<Rightarrow> permbu \<Rightarrow> res \<Rightarrow> real list \<Rightarrow> (py_error + res) \<times> rng" where
  "PERMBU_get_prediction_levels RandomState g self res level =
     (case PERMBU_get_samples RandomState g self (pb_num_samples self) of
        (Inl e, g') \<Rightarrow> (Inl e, g')
      | (Inr samples, g') \<Rightarrow> (levels_from_samples samples res level, g'))"

definition PERMBU_get_prediction_quantiles ::
  "(int \<Rightarrow> rng) \<Rightarrow> rng \<Rightarrow> permbu \<Rightarrow> res \<Rightarrow> real list \<Rightarrow> (py_error + res) \<times> rng" where
  "PERMBU_get_prediction_quantiles RandomState g self res quantiles =
     (case PERMBU_get_samples RandomState g self (pb_num_samples self) of
        (Inl e, g') \<Rightarrow> (Inl e, g')
      | (Inr samples, g') \<Rightarrow>
          (bind_err (sample_quantiles samples quantiles) (\<lambda>sample_quantiles.
           Inr (res(Quantiles \<mapsto> A3 sample_quantiles))), g'))"

subsection \<open>Coherence\<close>

text \<open>
  The bottom series are the last rows of the summing matrix, as many as it has columns;
  the rows above are the aggregates. A samples array of shape
  \<open>(n_series, n_horizon, num_samples)\<close> is coherent when, for every horizon step \<open>t\<close> and
  every sample \<open>k\<close>, the aggregate rows of the path \<^verbatim>\<open>samples[:, t, k]\<close> are the aggregate
  rows of \<open>S\<close> applied to its bottom rows.
\<close>

definition identity :: "nat \<Rightarrow> mat" where
  "identity n = map (\<lambda>i. map (\<lambda>j. if i = j then 1 else 0) [0..<n]) [0..<n]"

definition sample_path :: "tensor3 \<Rightarrow> nat \<Rightarrow> nat \<Rightarrow> vec" where
  "sample_path samples t k = map (\<lambda>plane. plane ! t ! k) samples"

definition coherent_path :: "mat \<Rightarrow> vec \<Rightarrow> bool" where
  "coherent_path S path =
     (let n_agg = length S - ncols S
      in case matvec S (drop n_agg path) of
           Inl e \<Rightarrow> False
         | Inr y \<Rightarrow> take n_agg y = take n_agg path)"

definition coherent :: "mat \<Rightarrow> tensor3 \<Rightarrow> bool" where
  "coherent S samples =
     list_all (\<lambda>t. list_all (\<lambda>k. coherent_path S (sample_path samples t k))
                        [0..<ncols (column samples t)])
       [0..<ncols samples]"

subsection \<open>Monotone quantiles\<close>






section \<open>Concrete inputs\<close>

text \<open>
  The hierarchy of the specification's end-to-end scenario: one total over two bottom
  series, \<open>P\<close> passing the bottom rows through, horizon one.
\<close>

definition S3 :: mat where
  "S3 = [[1, 1], [1, 0], [0, 1]]"

definition P3 :: mat where
  "P3 = [[0, 1, 0], [0, 0, 1]]"

definition y_hat3 :: mat where
  "y_hat3 = [[10], [4], [6]]"

text \<open>A Bootstrap sampler whose residuals are as long as the horizon: one column.\<close>

definition bootstrap_short :: bootstrap where
  "bootstrap_short =
     \<lparr>bs_S = S3, bs_P = P3, bs_W = None, bs_y_hat = y_hat3,
      bs_y_insample = [[Some 11], [Some 5], [Some 6]],
      bs_y_hat_insample = [[Some 10], [Some 4], [Some 6]],
      bs_num_samples = Some 100, bs_seed = 0\<rparr>"

text \<open>
  A PERMBU sampler with two residual columns, and generators to run it with: the seeded
  one yields the normal variates \<open>0, 0, 0, 1, 0, 2, 0, \<dots>\<close>, the two process-wide ones
  yield the raw integers \<open>0, 0, \<dots>\<close> and \<open>1, 1, \<dots>\<close>.
\<close>

definition permbu3 :: permbu where
  "permbu3 =
     \<lparr>pb_S = S3, pb_P = None, pb_y_hat = y_hat3,
      pb_y_insample = [[Some 10, Some 11], [Some 4, Some 5], [Some 7, Some 6]],
      pb_y_hat_insample = [[Some 10, Some 10], [Some 4, Some 4], [Some 6, Some 6]],
      pb_sigmah = [[1], [1], [1]], pb_num_samples = None, pb_seed = 0\<rparr>"


definition seeded :: "int \<Rightarrow> rng" where
  "seeded seed = \<lparr>raw = (\<lambda>k. 0), gauss = (\<lambda>k. if k = 3 then 1 else if k = 5 then 2 else 0)\<rparr>"

definition global_zeros :: rng where
  "global_zeros = \<lparr>raw = (\<lambda>k. 0), gauss = (\<lambda>k. 0)\<rparr>"

definition global_ones :: rng where
  "global_ones = \<lparr>raw = (\<lambda>k. 1), gauss = (\<lambda>k. 0)\<rparr>"

text \<open>A Bootstrap sampler with four in-sample columns, one of them incomplete.\<close>

definition bootstrap3 :: bootstrap where
  "bootstrap3 =
     \<lparr>bs_S = S3, bs_P = P3, bs_W = None, bs_y_hat = y_hat3,
      bs_y_insample = [[Some 9, Some 11, None, Some 10], [Some 4, Some 5, Some 1, Some 3],
                       [Some 5, Some 7, Some 2, Some 8]],
      bs_y_hat_insample = [[Some 10, Some 10, Some 10, Some 10], [Some 4, Some 4, Some 4, Some 4],
                           [Some 6, Some 6, Some 6, Some 6]],
      bs_num_samples = Some 3, bs_seed = 0\<rparr>"

text \<open>A generator whose raw integers count up from zero, and whose normal variates do too.\<close>

definition counting :: "int \<Rightarrow> rng" where
  "counting seed = \<lparr>raw = (\<lambda>k. k), gauss = (\<lambda>k. real k)\<rparr>"

text \<open>
  The Normality sampler of the end-to-end scenario, with unit covariance and unit standard
  deviations, as its constructor builds it; a factor \<open>F\<close> of its reconciled covariance
  (\<open>F\<^sup>T F\<close> is the covariance); and a stand-in for \<^verbatim>\<open>norm.ppf\<close>, increasing and zero at
  one half.
\<close>

definition normality3 :: normality where
  "normality3 =
     \<lparr>nm_S = S3, nm_P = P3, nm_y_hat = y_hat3, nm_SP = [[0, 1, 1], [0, 1, 0], [0, 0, 1]],
      nm_W = [[1, 0, 0], [0, 1, 0], [0, 0, 1]], nm_sigmah = [[1], [1], [1]], nm_seed = 0,
      nm_cov_rec = [[[2, 1, 1], [1, 1, 0], [1, 0, 1]]],
      nm_sigmah_rec = [[Some (sqrt 2)], [Some 1], [Some 1]]\<rparr>"

definition factor3 :: "mat \<Rightarrow> mat" where
  "factor3 cov = [[0, 0, 0], [1, 1, 0], [1, 0, 1]]"

definition ppf_standin :: "real \<Rightarrow> real" where
  "ppf_standin p = 2 * p - 1"

definition res3 :: res where
  "res3 = [Mean \<mapsto> A2 [[Some 10], [Some 4], [Some 6]]]"

text \<open>
  A sampler of one series with unit covariance and unit standard deviation, as its
  constructor builds it, with the mean 4; and the one value of \<^verbatim>\<open>norm.ppf\<close> that a request for
  the level 80 reads: at the double nearest to 0.9, which is \<open>8106479329266893 / 2 ^ 53\<close>,
  it returns the double 1.2815515655446004, which is \<open>2885797576521369 / 2 ^ 51\<close>.
\<close>

definition normality1 :: normality where
  "normality1 =
     \<lparr>nm_S = [[1]], nm_P = [[1]], nm_y_hat = [[4]], nm_SP = [[1]], nm_W = [[1]],
      nm_sigmah = [[1]], nm_seed = 0, nm_cov_rec = [[[1]]], nm_sigmah_rec = [[Some 1]]\<rparr>"

definition res1 :: res where
  "res1 = [Mean \<mapsto> A2 [[Some 4]]]"

definition ppf_table :: "real \<Rightarrow> real" where
  "ppf_table p = (if p = 8106479329266893 / 2 ^ 53 then 2885797576521369 / 2 ^ 51 else 0)"



definition tags3 :: tags where
  "tags3 = [(''total'', [0]), (''bottom'', [1, 2])]"


section \<open>Properties\<close>

subsection \<open>Auxiliary facts\<close>

lemma traverse_Inr:
  "traverse f xs = Inr ys \<Longrightarrow> length ys = length xs \<and> (\<forall>i<length xs. f (xs ! i) = Inr (ys ! i))"
proof (induction xs arbitrary: ys)
  case Nil
  then show ?case by simp
next
  case (Cons x xs)
  from Cons.prems obtain y zs where y: "f x = Inr y" and zs: "traverse f xs = Inr zs" and ys: "ys = y # zs"
    by (auto split: sum.splits)
  from Cons.IH [OF zs] have len: "length zs = length xs" and nth: "\<forall>i<length xs. f (xs ! i) = Inr (zs ! i)"
    by simp_all
  show ?case
  proof (intro conjI allI impI)
    show "length ys = length (x # xs)" using len ys by simp
  next
    fix i assume "i < length (x # xs)"
    then show "f ((x # xs) ! i) = Inr (ys ! i)"
      using y nth ys by (cases i) simp_all
  qed
qed

lemma ncols_map_const: "A \<noteq> [] \<Longrightarrow> ncols (map (\<lambda>r. map (g r) [0..<c]) A) = c"
  by (cases A) (simp_all add: ncols_def)

lemma matvec_matmul:
  assumes SP: "matmul S P = Inr SP"
    and y: "matvec SP x = Inr y"
    and Prows: "\<forall>row \<in> set P. length row = length x"
    and S: "S \<noteq> []"
  shows "\<exists>v. matvec P x = Inr v \<and> length v = length P \<and> matvec S v = Inr y"
proof -
  have inner: "ncols S = length P"
    using SP by (auto simp: matmul_def split: if_splits)
  have SPdef: "SP = map (\<lambda>r. map (\<lambda>j. \<Sum>k<length P. r ! k * P ! k ! j) [0..<ncols P]) S"
    using SP by (auto simp: matmul_def split: if_splits)
  have "ncols SP = ncols P"
    unfolding SPdef using S by (rule ncols_map_const)
  moreover have "ncols SP = length x"
    using y by (auto simp: matvec_def split: if_splits)
  ultimately have Pc: "ncols P = length x" by simp
  define v where "v = map (\<lambda>r. \<Sum>k<length x. r ! k * x ! k) P"
  have v: "matvec P x = Inr v"
    using Pc by (simp add: matvec_def v_def)
  have lv: "length v = length P" by (simp add: v_def)
  have ydef: "y = map (\<lambda>r. \<Sum>k<length x. r ! k * x ! k) SP"
    using y by (auto simp: matvec_def split: if_splits)
  have "map (\<lambda>r. \<Sum>m<length v. r ! m * v ! m) S = y"
  proof (rule nth_equalityI)
    show "length (map (\<lambda>r. \<Sum>m<length v. r ! m * v ! m) S) = length y"
      by (simp add: ydef SPdef)
  next
    fix i assume "i < length (map (\<lambda>r. \<Sum>m<length v. r ! m * v ! m) S)"
    then have i: "i < length S" by simp
    have "y ! i = (\<Sum>k<length x. (\<Sum>m<length P. S ! i ! m * P ! m ! k) * x ! k)"
      using i Pc by (simp add: ydef SPdef)
    also have "\<dots> = (\<Sum>k<length x. \<Sum>m<length P. S ! i ! m * (P ! m ! k * x ! k))"
      by (simp add: sum_distrib_right mult.assoc)
    also have "\<dots> = (\<Sum>m<length P. \<Sum>k<length x. S ! i ! m * (P ! m ! k * x ! k))"
      by (rule sum.swap)
    also have "\<dots> = (\<Sum>m<length P. S ! i ! m * v ! m)"
      by (simp add: v_def sum_distrib_left)
    finally show "map (\<lambda>r. \<Sum>m<length v. r ! m * v ! m) S ! i = y ! i"
      using i lv by simp
  qed
  then have "matvec S v = Inr y"
    using inner lv by (simp add: matvec_def)
  with v lv show ?thesis by blast
qed

lemma identity_matvec:
  assumes "length v = n"
  shows "map (\<lambda>r. \<Sum>k<length v. r ! k * v ! k) (identity n) = v"
proof (rule nth_equalityI)
  show "length (map (\<lambda>r. \<Sum>k<length v. r ! k * v ! k) (identity n)) = length v"
    using assms by (simp add: identity_def)
next
  fix i assume "i < length (map (\<lambda>r. \<Sum>k<length v. r ! k * v ! k) (identity n))"
  then have i: "i < n" by (simp add: identity_def)
  have "(\<Sum>k<n. identity n ! i ! k * v ! k) = (\<Sum>k<n. if i = k then v ! k else 0)"
    using i by (intro sum.cong) (auto simp: identity_def)
  also have "\<dots> = v ! i"
    using i by simp
  finally show "map (\<lambda>r. \<Sum>k<length v. r ! k * v ! k) (identity n) ! i = v ! i"
    using i assms by (simp add: identity_def)
qed

lemma coherent_path_matvec:
  assumes y: "matvec S v = Inr y"
    and bottom: "drop (length S - ncols S) S = identity (ncols S)"
  shows "coherent_path S y"
proof -
  have lv: "ncols S = length v" and ydef: "y = map (\<lambda>r. \<Sum>k<length v. r ! k * v ! k) S"
    using y by (auto simp: matvec_def split: if_splits)
  have "drop (length S - ncols S) y = map (\<lambda>r. \<Sum>k<length v. r ! k * v ! k) (identity (ncols S))"
    by (simp add: ydef drop_map bottom)
  also have "\<dots> = v"
    using lv by (simp add: identity_matvec)
  finally show ?thesis
    using y by (simp add: coherent_path_def)
qed


lemma matvec_length: "matvec A x = Inr y \<Longrightarrow> length y = length A"
  by (auto simp: matvec_def split: if_splits)

lemma mat_add_length: "mat_add A B = Inr C \<Longrightarrow> length C = length A"
  by (auto simp: mat_add_def split: if_splits)

lemma Bootstrap_get_samples_Inr:
  assumes "Bootstrap_get_samples RandomState self num_samples = Inr out"
  obtains SP xs ys where
    "matmul (bs_S self) (bs_P self) = Inr SP"
    "\<forall>x \<in> set xs. length x = length (bs_y_hat self)"
    "apply_along_axis_1 (matvec SP) (ncols (bs_y_hat self)) xs = Inr ys"
    "out = transpose_120 (length SP) (ncols (bs_y_hat self)) ys"
proof -
  from assms obtain R where R: "nan_sub (bs_y_insample self) (bs_y_hat_insample self) = Inr R"
    by (auto simp: Bootstrap_get_samples_def bind_err_def split: sum.splits)
  define h where "h = ncols (bs_y_hat self)"
  define res where "res = complete_columns R"
  from assms R obtain idxs xs SP ys where
    xs: "traverse (\<lambda>idx. mat_add (bs_y_hat self) (map (\<lambda>r. take h (drop idx r)) res)) idxs = Inr xs"
    and SP: "matmul (bs_S self) (bs_P self) = Inr SP"
    and ys: "apply_along_axis_1 (matvec SP) h xs = Inr ys"
    and out: "out = transpose_120 (length SP) h ys"
    by (auto simp: Bootstrap_get_samples_def bind_err_def Let_def h_def res_def split: sum.splits)
  have "\<forall>x \<in> set xs. length x = length (bs_y_hat self)"
  proof
    fix x assume "x \<in> set xs"
    then obtain k where k: "k < length xs" and x: "x = xs ! k"
      by (auto simp: in_set_conv_nth)
    from traverse_Inr [OF xs] k
    have "mat_add (bs_y_hat self) (map (\<lambda>r. take h (drop (idxs ! k) r)) res) = Inr (xs ! k)"
      by simp
    then show "length x = length (bs_y_hat self)"
      using x by (simp add: mat_add_length)
  qed
  have xs_len: "\<forall>x \<in> set xs. length x = length (bs_y_hat self)" by fact
  show ?thesis
  proof (rule that)
    show "matmul (bs_S self) (bs_P self) = Inr SP" by (rule SP)
    show "\<forall>x \<in> set xs. length x = length (bs_y_hat self)" by (rule xs_len)
    show "apply_along_axis_1 (matvec SP) (ncols (bs_y_hat self)) xs = Inr ys"
      using ys by (simp add: h_def)
    show "out = transpose_120 (length SP) (ncols (bs_y_hat self)) ys"
      using out by (simp add: h_def)
  qed
qed

lemma apply_along_axis_1_Inr:
  assumes "apply_along_axis_1 (matvec SP) h xs = Inr ys"
  shows "0 < h \<and> length ys = length xs \<and> xs \<noteq> [] \<and>
         (\<forall>k<length xs. \<forall>t<h. \<exists>y. matvec SP (column (xs ! k) t) = Inr y \<and>
            (\<forall>i<length SP. ys ! k ! i ! t = y ! i))"
proof -
  from assms have h: "0 < h" and ne: "xs \<noteq> []"
    and tr: "traverse (\<lambda>M. bind_err (traverse (\<lambda>t. matvec SP (column M t)) [0..<h])
                           (\<lambda>cols. Inr (map (\<lambda>i. map (\<lambda>c. c ! i) cols) [0..<length (hd cols)]))) xs = Inr ys"
    by (auto simp: apply_along_axis_1_def split: if_splits)
  note T = traverse_Inr [OF tr]
  have "\<exists>y. matvec SP (column (xs ! k) t) = Inr y \<and> (\<forall>i<length SP. ys ! k ! i ! t = y ! i)"
    if k: "k < length xs" and t: "t < h" for k t
  proof -
    from T k have "bind_err (traverse (\<lambda>t. matvec SP (column (xs ! k) t)) [0..<h])
        (\<lambda>cols. Inr (map (\<lambda>i. map (\<lambda>c. c ! i) cols) [0..<length (hd cols)])) = Inr (ys ! k)"
      by simp
    then obtain cols where
      cols: "traverse (\<lambda>t. matvec SP (column (xs ! k) t)) [0..<h] = Inr cols"
      and yk: "ys ! k = map (\<lambda>i. map (\<lambda>c. c ! i) cols) [0..<length (hd cols)]"
      by (cases "traverse (\<lambda>t. matvec SP (column (xs ! k) t)) [0..<h]")
         (auto simp: bind_err_def)
    note C = traverse_Inr [OF cols]
    have lc: "length cols = h" using C by simp
    have ct: "matvec SP (column (xs ! k) t') = Inr (cols ! t')" if "t' < h" for t'
      using C that by simp
    have "hd cols = cols ! 0"
      using lc h by (cases cols) simp_all
    then have lhd: "length (hd cols) = length SP"
      using ct [OF h] by (simp add: matvec_length)
    have "\<forall>i<length SP. ys ! k ! i ! t = cols ! t ! i"
      using yk lhd lc t by simp
    with ct [OF t] show ?thesis by blast
  qed
  with h ne T show ?thesis by simp
qed


lemma ncols_map_upt: "0 < n \<Longrightarrow> ncols (map f [0..<n]) = length (f 0)"
  by (simp add: ncols_def upt_conv_Cons)


lemma nanmat_scale_shape:
  "length (nanmat_scale mul z A) = length A" "ncols (nanmat_scale mul z A) = ncols A"
  by (cases A; simp add: nanmat_scale_def ncols_def)+

lemma nanmat_op_Inr:
  "length A = length B \<Longrightarrow> ncols A = ncols B \<Longrightarrow> nanmat_op f A B = Inr (map2 (map2 (nan_op f)) A B)"
  by (simp add: nanmat_op_def)

lemma Normality_levels_loop_result:
  assumes "res Mean = Some (A2 mean)"
    and "length mean = length (nm_sigmah_rec self)" and "ncols mean = ncols (nm_sigmah_rec self)"
    and "\<forall>p \<in> set pairs. fst p = f (snd p)"
  shows "\<exists>res'. Normality_levels_loop ar self res pairs = Inr res' \<and>
           res' Mean = Some (A2 mean) \<and> res' Sigmah = res Sigmah \<and>
           (\<forall>lv \<in> snd ` set pairs.
              res' (Lo lv) = Some (A2 (map2 (map2 (nan_op (fsub ar))) mean
                                         (nanmat_scale (fmul ar) (f lv) (nm_sigmah_rec self)))) \<and>
              res' (Hi lv) = Some (A2 (map2 (map2 (nan_op (fadd ar))) mean
                                         (nanmat_scale (fmul ar) (f lv) (nm_sigmah_rec self))))) \<and>
           (\<forall>lv. lv \<notin> snd ` set pairs \<longrightarrow> res' (Lo lv) = res (Lo lv) \<and> res' (Hi lv) = res (Hi lv))"
  using assms
proof (induction pairs arbitrary: res)
  case Nil
  then show ?case by simp
next
  case (Cons p pairs)
  obtain zs lv where p: "p = (zs, lv)" by (cases p)
  have zs: "zs = f lv" using Cons.prems(4) p by simp
  define lo where "lo = map2 (map2 (nan_op (fsub ar))) mean (nanmat_scale (fmul ar) zs (nm_sigmah_rec self))"
  define hi where "hi = map2 (map2 (nan_op (fadd ar))) mean (nanmat_scale (fmul ar) zs (nm_sigmah_rec self))"
  define res1 where "res1 = (res(Lo lv \<mapsto> A2 lo))(Hi lv \<mapsto> A2 hi)"
  have lo: "nanmat_op (fsub ar) mean (nanmat_scale (fmul ar) zs (nm_sigmah_rec self)) = Inr lo"
    using Cons.prems(2,3) by (simp add: nanmat_op_Inr nanmat_scale_shape lo_def)
  have hi: "nanmat_op (fadd ar) mean (nanmat_scale (fmul ar) zs (nm_sigmah_rec self)) = Inr hi"
    using Cons.prems(2,3) by (simp add: nanmat_op_Inr nanmat_scale_shape hi_def)
  have step: "Normality_levels_loop ar self res (p # pairs) = Normality_levels_loop ar self res1 pairs"
    using Cons.prems(1) lo hi by (simp add: p bind_err_def res1_def)
  have m1: "res1 Mean = Some (A2 mean)"
    using Cons.prems(1) by (simp add: res1_def)
  have rest: "\<forall>p \<in> set pairs. fst p = f (snd p)"
    using Cons.prems(4) by simp
  have "\<exists>res'. Normality_levels_loop ar self res1 pairs = Inr res' \<and>
           res' Mean = Some (A2 mean) \<and> res' Sigmah = res1 Sigmah \<and>
           (\<forall>lv \<in> snd ` set pairs.
              res' (Lo lv) = Some (A2 (map2 (map2 (nan_op (fsub ar))) mean
                                         (nanmat_scale (fmul ar) (f lv) (nm_sigmah_rec self)))) \<and>
              res' (Hi lv) = Some (A2 (map2 (map2 (nan_op (fadd ar))) mean
                                         (nanmat_scale (fmul ar) (f lv) (nm_sigmah_rec self))))) \<and>
           (\<forall>lv. lv \<notin> snd ` set pairs \<longrightarrow> res' (Lo lv) = res1 (Lo lv) \<and> res' (Hi lv) = res1 (Hi lv))"
    using m1 Cons.prems(2,3) rest by (rule Cons.IH [of res1])
  then obtain res' where
    r: "Normality_levels_loop ar self res1 pairs = Inr res'"
    and rm: "res' Mean = Some (A2 mean)" and rs: "res' Sigmah = res1 Sigmah"
    and rin: "\<forall>lv \<in> snd ` set pairs.
              res' (Lo lv) = Some (A2 (map2 (map2 (nan_op (fsub ar))) mean
                                         (nanmat_scale (fmul ar) (f lv) (nm_sigmah_rec self)))) \<and>
              res' (Hi lv) = Some (A2 (map2 (map2 (nan_op (fadd ar))) mean
                                         (nanmat_scale (fmul ar) (f lv) (nm_sigmah_rec self))))"
    and rout: "\<forall>lv. lv \<notin> snd ` set pairs \<longrightarrow> res' (Lo lv) = res1 (Lo lv) \<and> res' (Hi lv) = res1 (Hi lv)"
    by blast
  show ?case
  proof (intro exI conjI ballI allI impI)
    show "Normality_levels_loop ar self res (p # pairs) = Inr res'" using step r by simp
    show "res' Mean = Some (A2 mean)" by (rule rm)
    show "res' Sigmah = res Sigmah" using rs by (simp add: res1_def)
  next
    fix l assume l: "l \<in> snd ` set (p # pairs)"
    show "res' (Lo l) = Some (A2 (map2 (map2 (nan_op (fsub ar))) mean (nanmat_scale (fmul ar) (f l) (nm_sigmah_rec self))))"
    proof (cases "l \<in> snd ` set pairs")
      case True
      then show ?thesis using rin by blast
    next
      case False
      then have "l = lv" using l p by auto
      then show ?thesis using False rout zs by (simp add: res1_def lo_def)
    qed
    show "res' (Hi l) = Some (A2 (map2 (map2 (nan_op (fadd ar))) mean (nanmat_scale (fmul ar) (f l) (nm_sigmah_rec self))))"
    proof (cases "l \<in> snd ` set pairs")
      case True
      then show ?thesis using rin by blast
    next
      case False
      then have "l = lv" using l p by auto
      then show ?thesis using False rout zs by (simp add: res1_def hi_def)
    qed
  next
    fix l assume l: "l \<notin> snd ` set (p # pairs)"
    then have "l \<notin> snd ` set pairs" and "l \<noteq> lv" using p by auto
    then show "res' (Lo l) = res (Lo l)" and "res' (Hi l) = res (Hi l)"
      using rout by (simp_all add: res1_def)
  qed
qed

text \<open>Shapes and cells of the arrays of the prediction intervals.\<close>

lemma is_matrix_ncols: "is_matrix N H A \<Longrightarrow> ncols A = (if N = 0 then 0 else H)"
  by (cases A) (auto simp: is_matrix_def ncols_def)

lemma map2_map2_is_matrix:
  assumes "is_matrix N H A" and "is_matrix N H B"
  shows "is_matrix N H (map2 (map2 f) A B)"
proof -
  have "length row = H" if "row \<in> set (map2 (map2 f) A B)" for row
  proof -
    from that obtain a b where "(a, b) \<in> set (zip A B)" and row: "row = map2 f a b"
      by auto
    then have "a \<in> set A" and "b \<in> set B"
      by (auto dest: set_zip_leftD set_zip_rightD)
    then show ?thesis
      using assms by (simp add: row is_matrix_def)
  qed
  then show ?thesis
    using assms by (simp add: is_matrix_def)
qed

lemma map2_map2_cell:
  assumes "is_matrix N H A" and "is_matrix N H B" and "i < N" and "t < H"
  shows "map2 (map2 f) A B ! i ! t = f (A ! i ! t) (B ! i ! t)"
proof -
  have "A ! i \<in> set A" and "B ! i \<in> set B"
    using assms by (simp_all add: is_matrix_def)
  then have "length (A ! i) = H" and "length (B ! i) = H"
    using assms by (simp_all add: is_matrix_def)
  then show ?thesis
    using assms by (simp add: is_matrix_def)
qed

lemma nanmat_scale_is_matrix:
  "is_matrix N H A \<Longrightarrow> is_matrix N H (nanmat_scale mul z A)"
  by (simp add: is_matrix_def nanmat_scale_def)

lemma nanmat_scale_cell:
  assumes "is_matrix N H A" and "i < N" and "t < H"
  shows "nanmat_scale mul z A ! i ! t = map_option (mul z) (A ! i ! t)"
proof -
  have "A ! i \<in> set A" using assms by (simp add: is_matrix_def)
  then have "length (A ! i) = H" using assms by (simp add: is_matrix_def)
  then show ?thesis
    using assms by (simp add: is_matrix_def nanmat_scale_def)
qed

text \<open>Rounding to the nearest double: how to evaluate it, and how far it moves a number.\<close>

lemma round_half_even_bound: "\<bar>of_int (round_half_even x) - x\<bar> \<le> 1 / 2"
  unfolding round_half_even_def Let_def by (auto simp: abs_if) linarith+

lemma round_half_even_of_int: "round_half_even (of_int m) = m"
  by (simp add: round_half_even_def)

lemma binary64_eval:
  assumes lo: "2 powi e \<le> \<bar>x\<bar>" and hi: "\<bar>x\<bar> < 2 powi (e + 1)" and e: "- 1022 \<le> e"
  shows "binary64 x = of_int (round_half_even (x * 2 powi (52 - e))) * 2 powi (e - 52)"
proof -
  have "(0::real) < 2 powi e" by (simp add: zero_less_power_int)
  with lo have pos: "0 < \<bar>x\<bar>" by linarith
  have two: "(1::real) < 2" by simp
  have p: "2 powr real_of_int e = (2::real) powi e" "2 powr real_of_int (e + 1) = (2::real) powi (e + 1)"
    by (rule powr_real_of_int'; simp)+
  have "\<lfloor>log 2 \<bar>x\<bar>\<rfloor> = e"
    unfolding floor_log_eq_powr_iff [OF pos two] p
    using lo hi by simp
  moreover have "x \<noteq> 0" using pos by simp
  ultimately show ?thesis
    using e by (simp add: binary64_def Let_def)
qed

lemma power_int_cancel: "2 powi (52 - e) * 2 powi (e - 52) = (1::real)"
proof -
  have "(2::real) powi ((52 - e) + (e - 52)) = 2 powi (52 - e) * 2 powi (e - 52)"
    by (rule power_int_add) simp
  then show ?thesis by simp
qed

lemma binary64_of_int:
  assumes "2 powi e \<le> \<bar>x\<bar>" and "\<bar>x\<bar> < 2 powi (e + 1)" and "- 1022 \<le> e"
    and "x * 2 powi (52 - e) = of_int m"
  shows "binary64 x = x"
proof -
  have "binary64 x = of_int m * 2 powi (e - 52)"
    using binary64_eval [OF assms(1-3)] by (simp add: assms(4) round_half_even_of_int)
  also have "\<dots> = x * (2 powi (52 - e) * 2 powi (e - 52))"
    by (simp add: assms(4) [symmetric])
  finally show ?thesis by (simp add: power_int_cancel)
qed

lemma binary64_error: "\<bar>binary64 x - x\<bar> \<le> \<bar>x\<bar> / 2 ^ 53 + 1 / 2 ^ 1075"
proof (cases "x = 0")
  case True
  then show ?thesis by (simp add: binary64_def)
next
  case False
  define k where "k = \<lfloor>log 2 \<bar>x\<bar>\<rfloor>"
  define e where "e = max k (- 1022)"
  define y where "y = x * 2 powi (52 - e)"
  have b: "binary64 x = of_int (round_half_even y) * 2 powi (e - 52)"
    using False by (simp add: binary64_def k_def e_def y_def Let_def)
  have "y * 2 powi (e - 52) = x * (2 powi (52 - e) * 2 powi (e - 52))"
    by (simp add: y_def)
  then have x: "x = y * 2 powi (e - 52)" by (simp add: power_int_cancel)
  have "binary64 x - x = (of_int (round_half_even y) - y) * 2 powi (e - 52)"
    by (simp add: b left_diff_distrib) (subst x, simp)
  then have "\<bar>binary64 x - x\<bar> = \<bar>of_int (round_half_even y) - y\<bar> * 2 powi (e - 52)"
    by (simp add: abs_mult)
  also have "\<dots> \<le> 1 / 2 * 2 powi (e - 52)"
    by (rule mult_right_mono [OF round_half_even_bound]) simp
  also have "1 / 2 * 2 powi (e - 52) = (2::real) powi (e - 53)"
    by (simp add: power_int_diff)
  finally have bound: "\<bar>binary64 x - x\<bar> \<le> 2 powi (e - 53)" .
  show ?thesis
  proof (cases "- 1022 \<le> k")
    case True
    then have ek: "e = k" by (simp add: e_def)
    have pos: "0 < \<bar>x\<bar>" using False by simp
    have "2 powr real_of_int k \<le> \<bar>x\<bar>"
      using floor_log_eq_powr_iff [OF pos, of 2 k] by (simp add: k_def)
    then have "2 powi k \<le> \<bar>x\<bar>" by (simp add: powr_real_of_int')
    moreover have "(2::real) powi (k - 53) = 2 powi k / 2 ^ 53"
      by (simp add: power_int_diff)
    ultimately have "2 powi (e - 53) \<le> \<bar>x\<bar> / 2 ^ 53"
      by (simp add: ek divide_right_mono)
    with bound show ?thesis by simp
  next
    case False
    then have "e - 53 = - 1075" by (simp add: e_def)
    moreover have "(2::real) powi (- 1075) = 1 / 2 ^ 1075"
      by (simp only: power_int_minus power_int_numeral inverse_eq_divide)
    ultimately have "(2::real) powi (e - 53) = 1 / 2 ^ 1075" by (simp only:)
    with bound have a: "\<bar>binary64 x - x\<bar> \<le> 1 / 2 ^ 1075" by (simp only:)
    show ?thesis by (rule order_trans [OF a]) simp
  qed
qed


lemma binary64_two_fifths: "binary64 (2 / 5) = 3602879701896397 / 2 ^ 53"
  using binary64_eval [of "- 2" "2 / 5"] by (simp add: round_half_even_def Let_def)

lemma binary64_nine_tenths: "binary64 (8106479329266893 / 2 ^ 53) = 8106479329266893 / 2 ^ 53"
  by (rule binary64_of_int [of "- 1" _ 8106479329266893]) simp_all

lemma binary64_z90: "binary64 (2885797576521369 / 2 ^ 51) = 2885797576521369 / 2 ^ 51"
  by (rule binary64_of_int [of 0 _ 5771595153042738]) simp_all

lemma binary64_lo90: "binary64 (6121401678219623 / 2 ^ 51) = 6121401678219623 / 2 ^ 51"
  by (rule binary64_of_int [of 1 _ 6121401678219623]) simp_all

lemma binary64_hi90: "binary64 (11892996831262361 / 2 ^ 51) = 1486624603907795 / 2 ^ 48"
  using binary64_eval [of 2 "11892996831262361 / 2 ^ 51"]
  by (simp add: round_half_even_def Let_def)

lemma binary64_hi90_less_mean: "binary64 (360724697065171 / 2 ^ 48) = 360724697065171 / 2 ^ 48"
  by (rule binary64_of_int [of 0 _ 5771595153042736]) simp_all

lemma Normality_horizon_first:
  assumes "Normality_horizon cf self n state (t # ts) = Inr parts"
  shows "\<exists>mean rest. matvec (nm_SP self) (column (nm_y_hat self) t) = Inr mean \<and>
           parts = (map (\<lambda>k. (if length mean = length (nm_y_hat self) then (\<lambda>row. row)
                                else (\<lambda>row. replicate (length (nm_y_hat self)) (hd row)))
                               (map (\<lambda>j. (\<Sum>i<length mean. gauss state (k * length mean + i)
                                              * cf (nm_cov_rec self ! t) ! i ! j) + mean ! j)
                                  [0..<length mean]))
                      [0..<n]) # rest"
  using assms
  by (auto simp: multivariate_normal_def Let_def split: sum.splits if_splits prod.splits)











lemma bind_err_Inr:
  assumes "bind_err m f = Inr y"
  obtains x where "m = Inr x" and "f x = Inr y"
  using assms by (cases m) (simp_all add: bind_err_def)





























text \<open>
  Whenever \<^verbatim>\<open>get_samples\<close> returns, the array has one plane per series, one row per
  horizon step and one entry per sample. (Bootstrap has as many planes as \<open>S\<close> has rows.)
\<close>

lemma Normality_get_samples_shape:
  assumes "Normality_get_samples RandomState cov_factor self (Some n) = Inr out"
  shows "is_tensor (length (nm_y_hat self)) (ncols (nm_y_hat self)) n out"
proof -
  from assms obtain parts where
    "out = map (\<lambda>i. map (\<lambda>t. map (\<lambda>k. parts ! t ! k ! i) [0..<n]) [0..<ncols (nm_y_hat self)])
             [0..<length (nm_y_hat self)]"
    unfolding Normality_get_samples_def Let_def by (auto elim!: bind_err_Inr)
  then show ?thesis
    by (auto simp: is_tensor_def is_matrix_def)
qed

lemma choice_length: "fst (choice g a n) = Inr xs \<Longrightarrow> length xs = n"
  by (auto simp: choice_def split: if_splits)

lemma Bootstrap_get_samples_shape:
  assumes "Bootstrap_get_samples RandomState self (Some n) = Inr out"
  shows "is_tensor (length (bs_S self)) (ncols (bs_y_hat self)) n out \<and> 0 < n"
proof -
  from assms obtain R where R: "nan_sub (bs_y_insample self) (bs_y_hat_insample self) = Inr R"
    unfolding Bootstrap_get_samples_def by (rule bind_err_Inr)
  define h where "h = ncols (bs_y_hat self)"
  define res where "res = complete_columns R"
  define state where "state = RandomState (bs_seed self)"
  from assms R obtain idxs xs SP ys where
    idxs: "fst (choice state (arange (int (ncols res) - int h)) n) = Inr idxs"
    and xs: "traverse (\<lambda>idx. mat_add (bs_y_hat self) (map (\<lambda>r. take h (drop idx r)) res)) idxs = Inr xs"
    and SP: "matmul (bs_S self) (bs_P self) = Inr SP"
    and ys: "apply_along_axis_1 (matvec SP) h xs = Inr ys"
    and out: "out = transpose_120 (length SP) h ys"
    by (auto simp: Bootstrap_get_samples_def bind_err_def Let_def h_def res_def state_def
        split: sum.splits)
  have "length ys = length xs" and "xs \<noteq> []"
    using apply_along_axis_1_Inr [OF ys] by simp_all
  moreover have "length xs = length idxs" using traverse_Inr [OF xs] by simp
  moreover have "length idxs = n" using idxs by (rule choice_length)
  ultimately have n: "length ys = n" "0 < n" by auto
  have "length SP = length (bs_S self)"
    using SP by (auto simp: matmul_def split: if_splits)
  then show ?thesis
    using n by (auto simp: out transpose_120_def is_tensor_def is_matrix_def h_def)
qed

lemma reshape_is_tensor:
  assumes "length flat = N * H * n"
  shows "is_tensor N H n (map (reshape2 H n) (reshape2 N (H * n) flat))"
proof -
  have row: "min (length flat - r * (H * n)) (H * n) = H * n" if "r < N" for r
  proof -
    have "Suc r * (H * n) \<le> N * (H * n)"
      using that by (intro mult_le_mono1) simp
    then have "r * (H * n) + H * n \<le> length flat"
      using assms by (simp add: mult.assoc)
    then show ?thesis by simp
  qed
  have cell: "min (H * n - t * n) n = n" if "t < H" for t
  proof -
    have "Suc t * n \<le> H * n"
      using that by (intro mult_le_mono1) simp
    then have "t * n + n \<le> H * n" by simp
    then show ?thesis by simp
  qed
  show ?thesis
    using row cell by (auto simp: is_tensor_def is_matrix_def reshape2_def)
qed

lemma fold_update_is_tensor:
  assumes "is_tensor N H n rec" and "\<forall>(k, p) \<in> set zs. is_matrix H n (ps ! k)"
  shows "is_tensor N H n (fold (\<lambda>(k, p) rec. rec[p := ps ! k]) zs rec)"
  using assms
proof (induction zs arbitrary: rec)
  case Nil
  then show ?case by simp
next
  case (Cons z zs)
  obtain k p where z: "z = (k, p)" by (cases z)
  have "is_tensor N H n (rec[p := ps ! k])"
    using Cons.prems z set_update_subset_insert [of rec p "ps ! k"]
    by (auto simp: is_tensor_def)
  then show ?case
    using Cons.IH Cons.prems(2) z by simp
qed

lemma parent_plane_shape:
  assumes rec: "is_tensor N H n rec" and p: "p < length rec"
    and ps: "is_tensor m (ncols rec) (ncols (column rec 0)) ps" and k: "k < m"
  shows "is_matrix H n (ps ! k)"
proof -
  from p obtain r rs where recc: "rec = r # rs" by (cases rec) auto
  have r: "is_matrix H n r" using rec recc by (simp add: is_tensor_def)
  then have nc: "ncols rec = H" by (simp add: recc ncols_def is_matrix_def)
  have pk: "is_matrix H (ncols (column rec 0)) (ps ! k)"
    using ps k nc by (auto simp: is_tensor_def)
  show ?thesis
  proof (cases "H = 0")
    case True
    then show ?thesis using pk by (simp add: is_matrix_def)
  next
    case False
    then obtain c cs where "r = c # cs" using r by (cases r) (auto simp: is_matrix_def)
    then have "ncols (column rec 0) = n"
      using r by (simp add: recc column_def ncols_def is_matrix_def)
    then show ?thesis using pk by simp
  qed
qed

lemma PERMBU_level_shape:
  assumes rec: "is_tensor N H n rec"
    and step: "fst (PERMBU_level hier_links rank_permutations num_samples level_idx rec g) = Inr rec'"
  shows "is_tensor N H n rec'"
proof -
  define pidx where "pidx = unique (map fst (unique (map (\<lambda>r. (r ! level_idx, r ! (level_idx + 1))) hier_links)))"
  from step obtain ps where
    bound: "\<forall>p \<in> set pidx. p < length rec"
    and ps: "is_tensor (length pidx) (ncols rec) (ncols (column rec 0)) ps"
    and rec': "rec' = fold (\<lambda>(k, p) rec. rec[p := ps ! k]) (zip [0..<length pidx] pidx) rec"
    unfolding PERMBU_level_def Let_def pidx_def [symmetric]
    by (auto split: if_splits sum.splits simp: not_le)
  have "\<forall>(k, p) \<in> set (zip [0..<length pidx] pidx). is_matrix H n (ps ! k)"
  proof (clarify)
    fix k p assume kp: "(k, p) \<in> set (zip [0..<length pidx] pidx)"
    then have "k < length pidx" and "p \<in> set pidx"
      by (auto dest: set_zip_leftD set_zip_rightD)
    with bound parent_plane_shape [OF rec _ ps] show "is_matrix H n (ps ! k)" by blast
  qed
  with rec show ?thesis
    unfolding rec' by (rule fold_update_is_tensor)
qed

lemma PERMBU_levels_shape:
  assumes "is_tensor N H n rec"
    and "fst (PERMBU_levels hier_links rank_permutations num_samples levels rec g) = Inr out"
  shows "is_tensor N H n out"
  using assms
proof (induction levels arbitrary: rec g)
  case Nil
  then show ?case by simp
next
  case (Cons l levels)
  obtain r g1 where step: "PERMBU_level hier_links rank_permutations num_samples l rec g = (r, g1)"
    by (cases "PERMBU_level hier_links rank_permutations num_samples l rec g")
  from Cons.prems(2) step obtain rec1 where r: "r = Inr rec1"
    and rest: "fst (PERMBU_levels hier_links rank_permutations num_samples levels rec1 g1) = Inr out"
    by (cases r) simp_all
  have "is_tensor N H n rec1"
    using PERMBU_level_shape [OF Cons.prems(1), of hier_links rank_permutations num_samples l g rec1]
      step r by simp
  then show ?case using rest by (rule Cons.IH)
qed

lemma PERMBU_get_samples_shape:
  assumes "fst (PERMBU_get_samples RandomState g self (Some n)) = Inr out"
  shows "is_tensor (length (pb_y_hat self)) (ncols (pb_y_hat self)) n out"
proof -
  from assms obtain flat hier_links rank_permutations levels g1 where
    len: "length flat = length (pb_y_hat self) * ncols (pb_y_hat self) * n"
    and run: "fst (PERMBU_levels hier_links rank_permutations n levels
                (map (reshape2 (ncols (pb_y_hat self)) n)
                   (reshape2 (length (pb_y_hat self)) (ncols (pb_y_hat self) * n) flat)) g1) = Inr out"
    unfolding PERMBU_get_samples_def Let_def
    by (auto split: sum.splits if_splits)
  from reshape_is_tensor [OF len] run show ?thesis
    by (rule PERMBU_levels_shape)
qed

text \<open>The tree of the end-to-end scenario is strictly hierarchical, and its sampler is built.\<close>

lemma PERMBU_init_accepts_tree:
  "is_strictly_hierarchical S3 tags3 \<and>
   PERMBU_init S3 tags3 (pb_y_hat permbu3) (pb_y_insample permbu3) (pb_y_hat_insample permbu3)
     (pb_sigmah permbu3) None 0 None = Inr permbu3"
proof -
  have "is_strictly_hierarchical S3 tags3"
    by code_simp
  then show ?thesis
    by (simp add: PERMBU_init_def permbu3_def)
qed

subsection \<open>Coherence of the sample paths\<close>

text \<open>
  Over the real numbers, every array of sample paths that \<^verbatim>\<open>Bootstrap.get_samples\<close> returns
  is coherent when the bottom rows of the summing matrix are the identity and the rows of
  \<open>P\<close> have one entry per series: each path is \<open>S\<close> applied to a vector. (The products of the
  code are rounded to float64, where the equality holds up to rounding only.)
\<close>

lemma Bootstrap_get_samples_coherent:
  assumes out: "Bootstrap_get_samples RandomState self num_samples = Inr out"
    and P: "\<forall>row \<in> set (bs_P self). length row = length (bs_y_hat self)"
    and bottom: "drop (length (bs_S self) - ncols (bs_S self)) (bs_S self) = identity (ncols (bs_S self))"
  shows "coherent (bs_S self) out"
proof -
  from out obtain SP xs ys where
    SP: "matmul (bs_S self) (bs_P self) = Inr SP"
    and xs: "\<forall>x \<in> set xs. length x = length (bs_y_hat self)"
    and ys: "apply_along_axis_1 (matvec SP) (ncols (bs_y_hat self)) xs = Inr ys"
    and outdef: "out = transpose_120 (length SP) (ncols (bs_y_hat self)) ys"
    by (rule Bootstrap_get_samples_Inr)
  define h where "h = ncols (bs_y_hat self)"
  note A = apply_along_axis_1_Inr [OF ys, folded h_def]
  have lSP: "length SP = length (bs_S self)"
    using SP by (auto simp: matmul_def split: if_splits)
  show ?thesis
  proof (cases "bs_S self = []")
    case True
    then show ?thesis
      using lSP by (simp add: outdef transpose_120_def coherent_def ncols_def)
  next
    case False
    then have pos: "0 < length SP" using lSP by simp
    have out0: "out = map (\<lambda>i. map (\<lambda>t. map (\<lambda>M. M ! i ! t) ys) [0..<h]) [0..<length SP]"
      by (simp add: outdef transpose_120_def h_def)
    have nc: "ncols out = h"
      unfolding out0 using pos by (simp add: ncols_map_upt)
    have path: "coherent_path (bs_S self) (sample_path out t k)"
      if t: "t < h" and k: "k < length ys" for t k
    proof -
      have kx: "k < length xs" using A k by simp
      have "\<forall>k<length xs. \<forall>t<h. \<exists>y. matvec SP (column (xs ! k) t) = Inr y \<and>
              (\<forall>i<length SP. ys ! k ! i ! t = y ! i)"
        using A by blast
      with kx t obtain y where
        y: "matvec SP (column (xs ! k) t) = Inr y" and yi: "\<forall>i<length SP. ys ! k ! i ! t = y ! i"
        by blast
      have "sample_path out t k = map (\<lambda>i. y ! i) [0..<length SP]"
        using t k yi by (simp add: sample_path_def out0)
      also have "\<dots> = y"
        using matvec_length [OF y] map_nth [of y] by simp
      finally have sp: "sample_path out t k = y" .
      have "xs ! k \<in> set xs" using kx by simp
      then have "length (column (xs ! k) t) = length (bs_y_hat self)"
        using xs by (simp add: column_def)
      with P have "\<forall>row \<in> set (bs_P self). length row = length (column (xs ! k) t)"
        by simp
      from matvec_matmul [OF SP y this False] obtain v where "matvec (bs_S self) v = Inr y"
        by blast
      from coherent_path_matvec [OF this bottom] show ?thesis
        by (simp add: sp)
    qed
    show ?thesis
      unfolding coherent_def list_all_iff
    proof (intro ballI)
      fix t k
      assume "t \<in> set [0..<ncols out]" and kk: "k \<in> set [0..<ncols (column out t)]"
      then have t: "t < h" using nc by simp
      have "column out t = map (\<lambda>i. map (\<lambda>M. M ! i ! t) ys) [0..<length SP]"
        using t by (simp add: column_def out0)
      then have "ncols (column out t) = length ys"
        using pos by (simp add: ncols_map_upt)
      with kk have "k < length ys" by simp
      with t show "coherent_path (bs_S self) (sample_path out t k)"
        by (rule path)
    qed
  qed
qed

lemma Bootstrap_get_samples_coherent_example:
  "Bootstrap_get_samples counting bootstrap3 (Some 3)
     = Inr [[[9, 12, 9]], [[4, 5, 4]], [[5, 7, 5]]] \<and>
   list_all (\<lambda>row. length row = length (bs_y_hat bootstrap3)) (bs_P bootstrap3) \<and>
   drop (length (bs_S bootstrap3) - ncols (bs_S bootstrap3)) (bs_S bootstrap3)
     = identity (ncols (bs_S bootstrap3)) \<and>
   coherent (bs_S bootstrap3) [[[9, 12, 9]], [[4, 5, 4]], [[5, 7, 5]]]"
proof -
  have a: "Bootstrap_get_samples counting bootstrap3 (Some 3)
             = Inr [[[9, 12, 9]], [[4, 5, 4]], [[5, 7, 5]]]"
    by code_simp
  have b: "\<forall>row \<in> set (bs_P bootstrap3). length row = length (bs_y_hat bootstrap3)"
    by (simp add: bootstrap3_def P3_def y_hat3_def)
  have c: "drop (length (bs_S bootstrap3) - ncols (bs_S bootstrap3)) (bs_S bootstrap3)
             = identity (ncols (bs_S bootstrap3))"
    by code_simp
  show ?thesis
    using a b c Bootstrap_get_samples_coherent [OF a b c] by (simp add: list_all_iff)
qed

text \<open>
  The paths that \<^verbatim>\<open>Normality.get_samples\<close> returns in the end-to-end scenario are coherent
  too.
\<close>

lemma Normality_get_samples_coherent_example:
  "Normality_get_samples counting factor3 normality3 (Some 2)
     = Inr [[[13, 19]], [[5, 8]], [[8, 11]]] \<and>
   coherent S3 [[[13, 19]], [[5, 8]], [[8, 11]]]"
proof -
  have "coherent S3 [[[13, 19]], [[5, 8]], [[8, 11]]]"
    by code_simp
  then show ?thesis
    by (simp add: Normality_get_samples_def normality3_def y_hat3_def ncols_def matvec_def
        multivariate_normal_def is_matrix_def column_def counting_def factor3_def bind_err_def
        skip_gauss_def upt_conv_Cons lessThan_Suc eval_nat_numeral)
qed

text \<open>
  C1. \<^verbatim>\<open>PERMBU.get_samples\<close> returns sample paths that are not coherent. In the end-to-end
  scenario with two samples it returns the bottom rows \<open>[4, 5]\<close> and \<open>[6, 8]\<close>, which sum to
  \<open>[10, 13]\<close>, under the total row \<open>[11, 12]\<close>: the children are permuted by rank in a
  local copy only, and the parent row is their sum, reshuffled.
\<close>

theorem PERMBU_get_samples_not_coherent:
  "fst (PERMBU_get_samples seeded global_zeros permbu3 (Some 2))
     = Inr [[[11, 12]], [[4, 5]], [[6, 8]]] \<and>
   \<not> coherent (pb_S permbu3) [[[11, 12]], [[4, 5]], [[6, 8]]]"
  by code_simp

subsection \<open>Shape of the samples\<close>

text \<open>
  C2. An array that \<^verbatim>\<open>get_samples\<close> returns has the stated shape, for the three samplers
  (the shape lemmas above), but \<^verbatim>\<open>PERMBU.get_samples\<close> does not return an array for every
  positive \<^verbatim>\<open>num_samples\<close>: with fewer samples than residual columns (here one sample,
  two columns) the rank permutations are wider than the samples they index and
  \<^verbatim>\<open>_permutate_samples\<close> raises \<open>IndexError\<close>, whatever the generators yield.
\<close>

theorem PERMBU_get_samples_fewer_samples_than_residuals:
  "fst (PERMBU_get_samples RandomState g permbu3 (Some 1)) = Inl IndexError"
  by (simp add: PERMBU_get_samples_def PERMBU_expand_residuals_def PERMBU_level_def permbu3_def
      S3_def y_hat3_def nan_sub_def ncols_def complete_columns_def nan_free_columns_def py_gt_def
      obtain_ranks_def argsort_def normal_def vstack_def nonzero_indexes_by_row_def transposeM_def
      column_def arange_def unique_def permutate_predictions_def permutate_samples_def
      reshape2_def skip_gauss_def skip_raw_def is_matrix_def is_tensor_def choice_def
      permutation_def bind_err_def Let_def)

subsection \<open>Generators\<close>

text \<open>
  C3. The claim fails: \<^verbatim>\<open>Normality.get_samples\<close> makes its generator from the stored seed
  inside every call. A call for one sample and a call for two samples on the same instance
  read the same stream from its start: the first sample of the second call is the sample
  of the first.
\<close>

theorem Normality_get_samples_same_stream:
  "Normality_get_samples counting factor3 normality3 (Some 1) = Inr [[[13]], [[5]], [[8]]] \<and>
   Normality_get_samples counting factor3 normality3 (Some 2)
     = Inr [[[13, 19]], [[5, 8]], [[8, 11]]]"
  by (simp add: Normality_get_samples_def normality3_def counting_def factor3_def y_hat3_def
      ncols_def matvec_def column_def multivariate_normal_def is_matrix_def skip_gauss_def
      bind_err_def upt_conv_Cons lessThan_Suc eval_nat_numeral)

text \<open>
  C3, as amended. \<^verbatim>\<open>Normality.get_samples\<close> seeds a new generator from the stored seed at
  every call. Two calls on the same instance with the same \<^verbatim>\<open>num_samples\<close> return the same
  array, and with \<open>n \<le> m\<close> samples the first \<open>n\<close> samples of the larger call at the first
  horizon step are the samples of the smaller call.
\<close>

theorem Normality_get_samples_reseeds:
  assumes A: "Normality_get_samples RandomState cov_factor self (Some n) = Inr A"
    and B: "Normality_get_samples RandomState cov_factor self (Some m) = Inr B"
    and nm: "n \<le> m"
  shows "(n = m \<longrightarrow> A = B) \<and>
         (0 < ncols (nm_y_hat self) \<longrightarrow>
            (\<forall>i<length (nm_y_hat self). take n (B ! i ! 0) = A ! i ! 0))"
proof (intro conjI impI allI)
  assume "n = m"
  with A B show "A = B" by simp
next
  fix i
  assume H: "0 < ncols (nm_y_hat self)" and i: "i < length (nm_y_hat self)"
  define state where "state = RandomState (nm_seed self)"
  define h where "h = ncols (nm_y_hat self)"
  have upt: "[0..<h] = 0 # [1..<h]"
    using H by (simp add: h_def upt_conv_Cons)
  from A obtain pa where pa: "Normality_horizon cov_factor self n state (0 # [1..<h]) = Inr pa"
    and Adef: "A = map (\<lambda>i. map (\<lambda>t. map (\<lambda>k. pa ! t ! k ! i) [0..<n]) [0..<h])
                     [0..<length (nm_y_hat self)]"
    by (auto simp: Normality_get_samples_def bind_err_def Let_def state_def h_def
        upt [unfolded h_def] split: sum.splits)
  from B obtain pb where pb: "Normality_horizon cov_factor self m state (0 # [1..<h]) = Inr pb"
    and Bdef: "B = map (\<lambda>i. map (\<lambda>t. map (\<lambda>k. pb ! t ! k ! i) [0..<m]) [0..<h])
                     [0..<length (nm_y_hat self)]"
    by (auto simp: Normality_get_samples_def bind_err_def Let_def state_def h_def
        upt [unfolded h_def] split: sum.splits)
  from Normality_horizon_first [OF pa] Normality_horizon_first [OF pb]
  have same: "\<forall>k<n. pb ! 0 ! k = pa ! 0 ! k"
    using nm by auto
  have "A ! i ! 0 = map (\<lambda>k. pa ! 0 ! k ! i) [0..<n]"
    using i H by (simp add: Adef h_def)
  moreover have "B ! i ! 0 = map (\<lambda>k. pb ! 0 ! k ! i) [0..<m]"
    using i H by (simp add: Bdef h_def)
  moreover have "take n (map (\<lambda>k. pb ! 0 ! k ! i) [0..<m]) = map (\<lambda>k. pa ! 0 ! k ! i) [0..<n]"
    using nm same by (simp add: take_map min_def)
  ultimately show "take n (B ! i ! 0) = A ! i ! 0" by simp
qed

theorem Normality_get_samples_reseeds_witness:
  "Normality_get_samples counting factor3 normality3 (Some 2)
     = Inr [[[13, 19]], [[5, 8]], [[8, 11]]] \<and>
   Normality_get_samples counting factor3 normality3 (Some 3)
     = Inr [[[13, 19, 25]], [[5, 8, 11]], [[8, 11, 14]]] \<and>
   (2::nat) \<le> 3 \<and> 0 < ncols (nm_y_hat normality3) \<and> length (nm_y_hat normality3) = 3 \<and>
   list_all (\<lambda>i. take 2 ([[[13, 19, 25]], [[5, 8, 11]], [[8, 11, 14::real]]] ! i ! 0)
                   = [[[13, 19]], [[5, 8]], [[8, 11]]] ! i ! 0) [0, 1, 2]"
proof -
  have a: "Normality_get_samples counting factor3 normality3 (Some 2)
             = Inr [[[13, 19]], [[5, 8]], [[8, 11]]]"
    by (simp add: Normality_get_samples_def normality3_def counting_def factor3_def y_hat3_def
        ncols_def matvec_def column_def multivariate_normal_def is_matrix_def skip_gauss_def
        bind_err_def upt_conv_Cons lessThan_Suc eval_nat_numeral)
  have b: "Normality_get_samples counting factor3 normality3 (Some 3)
             = Inr [[[13, 19, 25]], [[5, 8, 11]], [[8, 11, 14]]]"
    by (simp add: Normality_get_samples_def normality3_def counting_def factor3_def y_hat3_def
        ncols_def matvec_def column_def multivariate_normal_def is_matrix_def skip_gauss_def
        bind_err_def upt_conv_Cons lessThan_Suc eval_nat_numeral)
  have c: "(2::nat) \<le> 3" by simp
  have d: "0 < ncols (nm_y_hat normality3)"
    by (simp add: normality3_def y_hat3_def ncols_def)
  have e: "length (nm_y_hat normality3) = 3"
    by (simp add: normality3_def y_hat3_def)
  from Normality_get_samples_reseeds [OF a b c] d e
  have "\<forall>i<3. take 2 ([[[13, 19, 25]], [[5, 8, 11]], [[8, 11, 14::real]]] ! i ! 0)
                = [[[13, 19]], [[5, 8]], [[8, 11]]] ! i ! 0"
    by simp
  then have "list_all (\<lambda>i. take 2 ([[[13, 19, 25]], [[5, 8, 11]], [[8, 11, 14::real]]] ! i ! 0)
                   = [[[13, 19]], [[5, 8]], [[8, 11]]] ! i ! 0) [0, 1, 2]"
    by simp
  with a b c d e show ?thesis by blast
qed

text \<open>
  C4. \<^verbatim>\<open>PERMBU.get_samples\<close> is not a function of the instance and its seed alone: the
  shuffle of the parent samples (and the expansion of the residuals) draw from the
  process-wide generator. The same instance, seed and \<^verbatim>\<open>num_samples\<close> give different
  arrays under two states of that generator.
\<close>

theorem PERMBU_get_samples_reads_global_generator:
  "fst (PERMBU_get_samples seeded global_zeros permbu3 (Some 2))
     = Inr [[[11, 12]], [[4, 5]], [[6, 8]]] \<and>
   fst (PERMBU_get_samples seeded global_ones permbu3 (Some 2))
     = Inr [[[12, 11]], [[4, 5]], [[6, 8]]]"
  by code_simp

subsection \<open>Prediction intervals\<close>

text \<open>The sampler of one series is what the constructor builds.\<close>

lemma normality1_init:
  "Normality_init cov2corr_spec [[1]] [[1]] [[4]] [[1]] [[1]] 0 = Inr normality1"
  by (simp add: Normality_init_def cov2corr_spec_def normality1_def matmul_def ncols_def
      bind_err_def transposeM_def column_def diag_of_vec_def diag_of_mat_def hstack_columns_def
      np_sqrt_def upt_conv_Cons lessThan_Suc eval_nat_numeral)

text \<open>
  The float64 operations of a request for the level 80 on the sampler of one series: the
  probability, the bounds, and the differences of the bounds from the mean.
\<close>

lemma float64_level_90:
  "fadd float64 (1 / 2) (fdiv float64 80 200) = 8106479329266893 / 2 ^ 53"
proof -
  have "fdiv float64 80 200 = binary64 (2 / 5)"
    by (simp add: float64_def)
  then have "fadd float64 (1 / 2) (fdiv float64 80 200)
               = binary64 (1 / 2 + 3602879701896397 / 2 ^ 53)"
    by (simp only: binary64_two_fifths) (simp add: float64_def)
  also have "(1 / 2 + 3602879701896397 / 2 ^ 53 :: real) = 8106479329266893 / 2 ^ 53"
    by simp
  finally show ?thesis
    by (simp only: binary64_nine_tenths)
qed

lemma float64_lo_90:
  "fsub float64 4 (fmul float64 (2885797576521369 / 2 ^ 51) 1) = 6121401678219623 / 2 ^ 51"
proof -
  have "fmul float64 (2885797576521369 / 2 ^ 51) 1 = binary64 (2885797576521369 / 2 ^ 51)"
    by (simp add: float64_def)
  then have "fsub float64 4 (fmul float64 (2885797576521369 / 2 ^ 51) 1)
               = binary64 (4 - 2885797576521369 / 2 ^ 51)"
    by (simp only: binary64_z90) (simp add: float64_def)
  also have "(4 - 2885797576521369 / 2 ^ 51 :: real) = 6121401678219623 / 2 ^ 51"
    by simp
  finally show ?thesis
    by (simp only: binary64_lo90)
qed

lemma float64_hi_90:
  "fadd float64 4 (fmul float64 (2885797576521369 / 2 ^ 51) 1) = 1486624603907795 / 2 ^ 48"
proof -
  have "fmul float64 (2885797576521369 / 2 ^ 51) 1 = binary64 (2885797576521369 / 2 ^ 51)"
    by (simp add: float64_def)
  then have "fadd float64 4 (fmul float64 (2885797576521369 / 2 ^ 51) 1)
               = binary64 (4 + 2885797576521369 / 2 ^ 51)"
    by (simp only: binary64_z90) (simp add: float64_def)
  also have "(4 + 2885797576521369 / 2 ^ 51 :: real) = 11892996831262361 / 2 ^ 51"
    by simp
  finally show ?thesis
    by (simp only: binary64_hi90)
qed

lemma float64_differences:
  "fsub float64 (1486624603907795 / 2 ^ 48) 4 = 360724697065171 / 2 ^ 48"
  "fsub float64 4 (6121401678219623 / 2 ^ 51) = 2885797576521369 / 2 ^ 51"
proof -
  have "fsub float64 (1486624603907795 / 2 ^ 48) 4 = binary64 (1486624603907795 / 2 ^ 48 - 4)"
    by (simp add: float64_def)
  also have "(1486624603907795 / 2 ^ 48 - 4 :: real) = 360724697065171 / 2 ^ 48"
    by simp
  finally show "fsub float64 (1486624603907795 / 2 ^ 48) 4 = 360724697065171 / 2 ^ 48"
    by (simp only: binary64_hi90_less_mean)
  have "fsub float64 4 (6121401678219623 / 2 ^ 51) = binary64 (4 - 6121401678219623 / 2 ^ 51)"
    by (simp add: float64_def)
  also have "(4 - 6121401678219623 / 2 ^ 51 :: real) = 2885797576521369 / 2 ^ 51"
    by simp
  finally show "fsub float64 4 (6121401678219623 / 2 ^ 51) = 2885797576521369 / 2 ^ 51"
    by (simp only: binary64_z90)
qed

text \<open>
  Two roundings separate the two half-widths of an interval computed in float64: each is
  within half a unit in the last place of its bound.
\<close>

lemma float64_symmetry_bound:
  "\<bar>(binary64 (m + t) - m) - (m - binary64 (m - t))\<bar>
     \<le> (\<bar>m + t\<bar> + \<bar>m - t\<bar>) / 2 ^ 53 + 1 / 2 ^ 1074"
proof -
  define A where "A = binary64 (m + t) - (m + t)"
  define B where "B = binary64 (m - t) - (m - t)"
  define c where "c = (1::real) / 2 ^ 1075"
  define u where "u = \<bar>m + t\<bar> / 2 ^ 53"
  define v where "v = \<bar>m - t\<bar> / 2 ^ 53"
  have a: "\<bar>A\<bar> \<le> u + c"
    unfolding A_def c_def u_def by (rule binary64_error)
  have b: "\<bar>B\<bar> \<le> v + c"
    unfolding B_def c_def v_def by (rule binary64_error)
  have eq: "(binary64 (m + t) - m) - (m - binary64 (m - t)) = A + B"
    by (simp add: A_def B_def)
  have cc: "c + c = 1 / 2 ^ 1074"
    unfolding c_def by simp
  have uv: "u + v = (\<bar>m + t\<bar> + \<bar>m - t\<bar>) / 2 ^ 53"
    unfolding u_def v_def by (simp only: add_divide_distrib)
  have "\<bar>A + B\<bar> \<le> \<bar>A\<bar> + \<bar>B\<bar>"
    by (rule abs_triangle_ineq)
  then have "\<bar>A + B\<bar> \<le> (u + v) + (c + c)"
    using a b by linarith
  then show ?thesis
    by (simp only: eq uv cc)
qed

text \<open>
  C6. The claim fails in its last part. In float64, with the mean 4, the reconciled
  standard deviation 1 and the level 80, \<^verbatim>\<open>get_prediction_levels\<close> stores the bounds
  \<open>6121401678219623 / 2 ^ 51\<close> and \<open>1486624603907795 / 2 ^ 48\<close> (2.7184484344553996 and
  5.2815515655446): the sum \<open>4 + z\<close> falls halfway between two doubles and is rounded, the
  difference \<open>4 - z\<close> is a double. So \<open>hi - mean\<close> and \<open>mean - lo\<close> differ, as real numbers
  and as float64 differences.
\<close>

theorem Normality_get_prediction_levels_float64_asymmetric:
  "Normality_get_prediction_levels float64 ppf_table normality1 res1 [80]
     = Inr (res1(Sigmah \<mapsto> A2 [[Some 1]],
                 Lo 80 \<mapsto> A2 [[Some (6121401678219623 / 2 ^ 51)]],
                 Hi 80 \<mapsto> A2 [[Some (1486624603907795 / 2 ^ 48)]])) \<and>
   1486624603907795 / 2 ^ 48 - 4 \<noteq> (4 - 6121401678219623 / 2 ^ 51 :: real) \<and>
   fsub float64 (1486624603907795 / 2 ^ 48) 4 \<noteq> fsub float64 4 (6121401678219623 / 2 ^ 51)"
proof -
  have z: "ppf_table (fadd float64 (1 / 2) (fdiv float64 80 200)) = 2885797576521369 / 2 ^ 51"
    by (simp only: float64_level_90) (simp add: ppf_table_def)
  have "Normality_get_prediction_levels float64 ppf_table normality1 res1 [80]
     = Inr (res1(Sigmah \<mapsto> A2 [[Some 1]],
                 Lo 80 \<mapsto> A2 [[Some (fsub float64 4 (fmul float64 (2885797576521369 / 2 ^ 51) 1))]],
                 Hi 80 \<mapsto> A2 [[Some (fadd float64 4 (fmul float64 (2885797576521369 / 2 ^ 51) 1))]]))"
    unfolding Normality_get_prediction_levels_def Let_def list.map z
    by (simp add: res1_def normality1_def nanmat_op_def nanmat_scale_def nan_op_def ncols_def
        bind_err_def)
  then have call: "Normality_get_prediction_levels float64 ppf_table normality1 res1 [80]
     = Inr (res1(Sigmah \<mapsto> A2 [[Some 1]],
                 Lo 80 \<mapsto> A2 [[Some (6121401678219623 / 2 ^ 51)]],
                 Hi 80 \<mapsto> A2 [[Some (1486624603907795 / 2 ^ 48)]]))"
    by (simp only: float64_lo_90 float64_hi_90)
  have "(1486624603907795 / 2 ^ 48 - 4 :: real) \<noteq> 4 - 6121401678219623 / 2 ^ 51"
    by simp
  moreover have "fsub float64 (1486624603907795 / 2 ^ 48) 4
                   \<noteq> fsub float64 4 (6121401678219623 / 2 ^ 51)"
    by (simp only: float64_differences) simp
  ultimately show ?thesis
    using call by blast
qed

text \<open>
  C6, as amended. With a two-dimensional \<^verbatim>\<open>res['mean']\<close> of the shape \<open>(N, H)\<close> of the
  reconciled standard deviations, \<^verbatim>\<open>Normality.get_prediction_levels\<close> returns a mapping that
  holds the reconciled standard deviations under \<^verbatim>\<open>'sigmah'\<close> and, for every requested level
  \<open>lv\<close>, two arrays of that shape under \<^verbatim>\<open>'lo-lv'\<close> and \<^verbatim>\<open>'hi-lv'\<close>. With
  \<open>z = ppf (0.5 + lv / 200)\<close>, their cells are \<open>mean - z * sigmah_rec\<close> and
  \<open>mean + z * sigmah_rec\<close>, computed cell by cell in the arithmetic of the call, and NaN
  where the mean or the standard deviation is NaN. Over the real numbers \<open>hi - mean\<close> and
  \<open>mean - lo\<close> are equal. In float64 they are equal up to the rounding of the two bounds:
  they differ by at most \<open>(\<bar>mean + t\<bar> + \<bar>mean - t\<bar>) / 2 ^ 53 + 1 / 2 ^ 1074\<close>, where \<open>t\<close> is
  the float64 product \<open>z * sigmah_rec\<close>.
\<close>

theorem Normality_get_prediction_levels_intervals:
  assumes mean: "res Mean = Some (A2 mean)"
    and rows: "is_matrix N H mean"
    and sig: "is_matrix N H (nm_sigmah_rec self)"
    and lv: "lv \<in> set level"
    and z: "z = ppf (fadd ar (1 / 2) (fdiv ar lv 200))"
  shows "\<exists>res' lo hi.
           Normality_get_prediction_levels ar ppf self res level = Inr res' \<and>
           res' Sigmah = Some (A2 (nm_sigmah_rec self)) \<and> res' Mean = Some (A2 mean) \<and>
           res' (Lo lv) = Some (A2 lo) \<and> res' (Hi lv) = Some (A2 hi) \<and>
           is_matrix N H lo \<and> is_matrix N H hi \<and>
           (\<forall>i<N. \<forall>t<H.
              lo ! i ! t = (case (mean ! i ! t, nm_sigmah_rec self ! i ! t) of
                              (Some m, Some s) \<Rightarrow> Some (fsub ar m (fmul ar z s))
                            | _ \<Rightarrow> None) \<and>
              hi ! i ! t = (case (mean ! i ! t, nm_sigmah_rec self ! i ! t) of
                              (Some m, Some s) \<Rightarrow> Some (fadd ar m (fmul ar z s))
                            | _ \<Rightarrow> None)) \<and>
           (ar = exact \<longrightarrow>
              (\<forall>i<N. \<forall>t<H. \<forall>m s.
                 mean ! i ! t = Some m \<and> nm_sigmah_rec self ! i ! t = Some s \<longrightarrow>
                 (\<exists>l h. lo ! i ! t = Some l \<and> hi ! i ! t = Some h \<and>
                    l = m - z * s \<and> h = m + z * s \<and> h - m = m - l))) \<and>
           (ar = float64 \<longrightarrow>
              (\<forall>i<N. \<forall>t<H. \<forall>m s.
                 mean ! i ! t = Some m \<and> nm_sigmah_rec self ! i ! t = Some s \<longrightarrow>
                 (\<exists>l h. lo ! i ! t = Some l \<and> hi ! i ! t = Some h \<and>
                    l = binary64 (m - binary64 (z * s)) \<and> h = binary64 (m + binary64 (z * s)) \<and>
                    \<bar>(h - m) - (m - l)\<bar>
                      \<le> (\<bar>m + binary64 (z * s)\<bar> + \<bar>m - binary64 (z * s)\<bar>) / 2 ^ 53
                         + 1 / 2 ^ 1074)))"
proof -
  define f where "f = (\<lambda>lv. ppf (fadd ar (1 / 2) (fdiv ar lv 200)))"
  define res0 where "res0 = res(Sigmah \<mapsto> A2 (nm_sigmah_rec self))"
  define sg where "sg = nanmat_scale (fmul ar) z (nm_sigmah_rec self)"
  define lo where "lo = map2 (map2 (nan_op (fsub ar))) mean sg"
  define hi where "hi = map2 (map2 (nan_op (fadd ar))) mean sg"
  have fz: "f lv = z" by (simp add: f_def z)
  have call: "Normality_get_prediction_levels ar ppf self res level
                = Normality_levels_loop ar self res0 (zip (map f level) level)"
    by (simp add: Normality_get_prediction_levels_def f_def res0_def)
  have m0: "res0 Mean = Some (A2 mean)"
    using mean by (simp add: res0_def)
  have len: "length mean = length (nm_sigmah_rec self)"
    using rows sig by (simp add: is_matrix_def)
  have nc: "ncols mean = ncols (nm_sigmah_rec self)"
    using is_matrix_ncols [OF rows] is_matrix_ncols [OF sig] by simp
  have pairs: "\<forall>p \<in> set (zip (map f level) level). fst p = f (snd p)"
    by (auto simp: in_set_zip)
  have inl: "lv \<in> snd ` set (zip (map f level) level)"
  proof -
    from lv obtain k where "k < length level" and "level ! k = lv"
      by (auto simp: in_set_conv_nth)
    then have "(f lv, lv) \<in> set (zip (map f level) level)"
      by (auto simp: in_set_zip intro!: exI [of _ k])
    then show ?thesis by force
  qed
  from Normality_levels_loop_result [of res0 mean self "zip (map f level) level" f ar,
      OF m0 len nc pairs]
  obtain res' where
    r: "Normality_levels_loop ar self res0 (zip (map f level) level) = Inr res'"
    and rm: "res' Mean = Some (A2 mean)" and rs: "res' Sigmah = res0 Sigmah"
    and rin: "\<forall>lv \<in> snd ` set (zip (map f level) level).
              res' (Lo lv) = Some (A2 (map2 (map2 (nan_op (fsub ar))) mean
                                         (nanmat_scale (fmul ar) (f lv) (nm_sigmah_rec self)))) \<and>
              res' (Hi lv) = Some (A2 (map2 (map2 (nan_op (fadd ar))) mean
                                         (nanmat_scale (fmul ar) (f lv) (nm_sigmah_rec self))))"
    by blast
  from rin inl have "res' (Lo lv) = Some (A2 (map2 (map2 (nan_op (fsub ar))) mean
                                         (nanmat_scale (fmul ar) (f lv) (nm_sigmah_rec self)))) \<and>
              res' (Hi lv) = Some (A2 (map2 (map2 (nan_op (fadd ar))) mean
                                         (nanmat_scale (fmul ar) (f lv) (nm_sigmah_rec self))))"
    by (rule bspec)
  then have rlo: "res' (Lo lv) = Some (A2 lo)" and rhi: "res' (Hi lv) = Some (A2 hi)"
    by (simp_all add: lo_def hi_def sg_def fz)
  have sgm: "is_matrix N H sg"
    unfolding sg_def using sig by (rule nanmat_scale_is_matrix)
  have shape: "is_matrix N H lo" "is_matrix N H hi"
    unfolding lo_def hi_def using rows sgm by (rule map2_map2_is_matrix)+
  have cells: "lo ! i ! t = nan_op (fsub ar) (mean ! i ! t)
                              (map_option (fmul ar z) (nm_sigmah_rec self ! i ! t))"
      "hi ! i ! t = nan_op (fadd ar) (mean ! i ! t)
                              (map_option (fmul ar z) (nm_sigmah_rec self ! i ! t))"
    if "i < N" and "t < H" for i t
    using map2_map2_cell [OF rows sgm that] nanmat_scale_cell [OF sig that]
    by (simp_all add: lo_def hi_def sg_def)
  have cases: "lo ! i ! t = (case (mean ! i ! t, nm_sigmah_rec self ! i ! t) of
                              (Some m, Some s) \<Rightarrow> Some (fsub ar m (fmul ar z s))
                            | _ \<Rightarrow> None) \<and>
              hi ! i ! t = (case (mean ! i ! t, nm_sigmah_rec self ! i ! t) of
                              (Some m, Some s) \<Rightarrow> Some (fadd ar m (fmul ar z s))
                            | _ \<Rightarrow> None)"
    if "i < N" and "t < H" for i t
    using cells [OF that]
    by (cases "mean ! i ! t"; cases "nm_sigmah_rec self ! i ! t") (simp_all add: nan_op_def)
  have ex: "\<exists>l h. lo ! i ! t = Some l \<and> hi ! i ! t = Some h \<and>
                    l = m - z * s \<and> h = m + z * s \<and> h - m = m - l"
    if "ar = exact" and "i < N" and "t < H"
      and "mean ! i ! t = Some m \<and> nm_sigmah_rec self ! i ! t = Some s" for i t m s
    using cells [OF that(2,3)] that(1,4) by (simp add: nan_op_def exact_def)
  have fl: "\<exists>l h. lo ! i ! t = Some l \<and> hi ! i ! t = Some h \<and>
                    l = binary64 (m - binary64 (z * s)) \<and> h = binary64 (m + binary64 (z * s)) \<and>
                    \<bar>(h - m) - (m - l)\<bar>
                      \<le> (\<bar>m + binary64 (z * s)\<bar> + \<bar>m - binary64 (z * s)\<bar>) / 2 ^ 53
                         + 1 / 2 ^ 1074"
    if "ar = float64" and "i < N" and "t < H"
      and "mean ! i ! t = Some m \<and> nm_sigmah_rec self ! i ! t = Some s" for i t m s
  proof -
    have "lo ! i ! t = Some (binary64 (m - binary64 (z * s)))"
      and "hi ! i ! t = Some (binary64 (m + binary64 (z * s)))"
      using cells [OF that(2,3)] that(1,4) by (simp_all add: nan_op_def float64_def)
    then show ?thesis
      using float64_symmetry_bound [of m "binary64 (z * s)"] by blast
  qed
  show ?thesis
  proof (rule exI [of _ res'], rule exI [of _ lo], rule exI [of _ hi], intro conjI allI impI)
    show "Normality_get_prediction_levels ar ppf self res level = Inr res'"
      using call r by simp
    show "res' Sigmah = Some (A2 (nm_sigmah_rec self))"
      using rs by (simp add: res0_def)
    show "res' Mean = Some (A2 mean)" by (rule rm)
    show "res' (Lo lv) = Some (A2 lo)" by (rule rlo)
    show "res' (Hi lv) = Some (A2 hi)" by (rule rhi)
    show "is_matrix N H lo" and "is_matrix N H hi" by (rule shape)+
  next
    fix i t assume "i < N" and "t < H"
    from cases [OF this]
    show "lo ! i ! t = (case (mean ! i ! t, nm_sigmah_rec self ! i ! t) of
                              (Some m, Some s) \<Rightarrow> Some (fsub ar m (fmul ar z s))
                            | _ \<Rightarrow> None)"
      and "hi ! i ! t = (case (mean ! i ! t, nm_sigmah_rec self ! i ! t) of
                              (Some m, Some s) \<Rightarrow> Some (fadd ar m (fmul ar z s))
                            | _ \<Rightarrow> None)"
      by simp_all
  next
    fix i t m s
    assume "ar = exact" and "i < N" and "t < H"
      and "mean ! i ! t = Some m \<and> nm_sigmah_rec self ! i ! t = Some s"
    then show "\<exists>l h. lo ! i ! t = Some l \<and> hi ! i ! t = Some h \<and>
                    l = m - z * s \<and> h = m + z * s \<and> h - m = m - l"
      by (rule ex)
  next
    fix i t m s
    assume "ar = float64" and "i < N" and "t < H"
      and "mean ! i ! t = Some m \<and> nm_sigmah_rec self ! i ! t = Some s"
    then show "\<exists>l h. lo ! i ! t = Some l \<and> hi ! i ! t = Some h \<and>
                    l = binary64 (m - binary64 (z * s)) \<and> h = binary64 (m + binary64 (z * s)) \<and>
                    \<bar>(h - m) - (m - l)\<bar>
                      \<le> (\<bar>m + binary64 (z * s)\<bar> + \<bar>m - binary64 (z * s)\<bar>) / 2 ^ 53
                         + 1 / 2 ^ 1074"
      by (rule fl)
  qed
qed

theorem Normality_get_prediction_levels_intervals_witness:
  "res3 Mean = Some (A2 [[Some 10], [Some 4], [Some 6]]) \<and>
   is_matrix 3 1 [[Some (10 :: real)], [Some 4], [Some 6]] \<and>
   is_matrix 3 1 (nm_sigmah_rec normality3) \<and>
   80 \<in> set [80, 95 :: real] \<and>
   4 / 5 = ppf_standin (fadd exact (1 / 2) (fdiv exact 80 200)) \<and>
   (\<exists>res' lo hi.
      Normality_get_prediction_levels exact ppf_standin normality3 res3 [80, 95] = Inr res' \<and>
      res' Sigmah = Some (A2 [[Some (sqrt 2)], [Some 1], [Some 1]]) \<and>
      res' (Lo 80) = Some (A2 lo) \<and> res' (Hi 80) = Some (A2 hi) \<and>
      is_matrix 3 1 lo \<and> is_matrix 3 1 hi \<and>
      lo ! 0 ! 0 = Some (10 - 4 / 5 * sqrt 2) \<and> hi ! 0 ! 0 = Some (10 + 4 / 5 * sqrt 2) \<and>
      lo ! 1 ! 0 = Some (16 / 5) \<and> hi ! 1 ! 0 = Some (24 / 5) \<and>
      lo ! 2 ! 0 = Some (26 / 5) \<and> hi ! 2 ! 0 = Some (34 / 5)) \<and>
   res1 Mean = Some (A2 [[Some 4]]) \<and>
   is_matrix 1 1 [[Some (4 :: real)]] \<and>
   is_matrix 1 1 (nm_sigmah_rec normality1) \<and>
   2885797576521369 / 2 ^ 51 = ppf_table (fadd float64 (1 / 2) (fdiv float64 80 200)) \<and>
   (\<exists>res' lo hi.
      Normality_get_prediction_levels float64 ppf_table normality1 res1 [80] = Inr res' \<and>
      res' Sigmah = Some (A2 [[Some 1]]) \<and>
      res' (Lo 80) = Some (A2 lo) \<and> res' (Hi 80) = Some (A2 hi) \<and>
      is_matrix 1 1 lo \<and> is_matrix 1 1 hi \<and>
      lo ! 0 ! 0 = Some (6121401678219623 / 2 ^ 51) \<and>
      hi ! 0 ! 0 = Some (1486624603907795 / 2 ^ 48) \<and>
      \<bar>(1486624603907795 / 2 ^ 48 - 4) - (4 - 6121401678219623 / 2 ^ 51)\<bar>
        \<le> (\<bar>4 + 2885797576521369 / 2 ^ 51\<bar> + \<bar>4 - 2885797576521369 / 2 ^ 51\<bar>) / 2 ^ 53
           + (1 :: real) / 2 ^ 1074)"
proof -
  have a: "res3 Mean = Some (A2 [[Some 10], [Some 4], [Some 6]])"
    by (simp add: res3_def)
  have b: "is_matrix 3 1 [[Some (10 :: real)], [Some 4], [Some 6]]"
    by (simp add: is_matrix_def)
  have c: "is_matrix 3 1 (nm_sigmah_rec normality3)"
    by (simp add: is_matrix_def normality3_def)
  have d: "80 \<in> set [80, 95 :: real]"
    by simp
  have e: "4 / 5 = ppf_standin (fadd exact (1 / 2) (fdiv exact 80 200))"
    by (simp add: ppf_standin_def exact_def)
  from Normality_get_prediction_levels_intervals
         [where ar = exact and ppf = ppf_standin and z = "4 / 5" and lv = 80
            and level = "[80, 95]" and self = normality3 and res = res3 and N = 3 and H = 1
            and mean = "[[Some 10], [Some 4], [Some 6]]", OF a b c d e]
  obtain res' lo hi where big: "Normality_get_prediction_levels exact ppf_standin normality3 res3 [80, 95] = Inr res' \<and>
           res' Sigmah = Some (A2 (nm_sigmah_rec normality3)) \<and> res' Mean = Some (A2 [[Some 10], [Some 4], [Some 6]]) \<and>
           res' (Lo 80) = Some (A2 lo) \<and> res' (Hi 80) = Some (A2 hi) \<and>
           is_matrix 3 1 lo \<and> is_matrix 3 1 hi \<and>
           (\<forall>i<3. \<forall>t<1.
              lo ! i ! t = (case ([[Some 10], [Some 4], [Some 6]] ! i ! t, nm_sigmah_rec normality3 ! i ! t) of
                              (Some m, Some s) \<Rightarrow> Some (fsub exact m (fmul exact (4 / 5) s))
                            | _ \<Rightarrow> None) \<and>
              hi ! i ! t = (case ([[Some 10], [Some 4], [Some 6]] ! i ! t, nm_sigmah_rec normality3 ! i ! t) of
                              (Some m, Some s) \<Rightarrow> Some (fadd exact m (fmul exact (4 / 5) s))
                            | _ \<Rightarrow> None)) \<and>
           (exact = exact \<longrightarrow>
              (\<forall>i<3. \<forall>t<1. \<forall>m s.
                 [[Some 10], [Some 4], [Some 6]] ! i ! t = Some m \<and> nm_sigmah_rec normality3 ! i ! t = Some s \<longrightarrow>
                 (\<exists>l h. lo ! i ! t = Some l \<and> hi ! i ! t = Some h \<and>
                    l = m - (4 / 5) * s \<and> h = m + (4 / 5) * s \<and> h - m = m - l))) \<and>
           (exact = float64 \<longrightarrow>
              (\<forall>i<3. \<forall>t<1. \<forall>m s.
                 [[Some 10], [Some 4], [Some 6]] ! i ! t = Some m \<and> nm_sigmah_rec normality3 ! i ! t = Some s \<longrightarrow>
                 (\<exists>l h. lo ! i ! t = Some l \<and> hi ! i ! t = Some h \<and>
                    l = binary64 (m - binary64 ((4 / 5) * s)) \<and> h = binary64 (m + binary64 ((4 / 5) * s)) \<and>
                    \<bar>(h - m) - (m - l)\<bar>
                      \<le> (\<bar>m + binary64 ((4 / 5) * s)\<bar> + \<bar>m - binary64 ((4 / 5) * s)\<bar>) / 2 ^ 53
                         + 1 / 2 ^ 1074)))"
    by (elim exE)
  note r = big [THEN conjunct1]
  note rs = big [THEN conjunct2, THEN conjunct1]
  note rl = big [THEN conjunct2, THEN conjunct2, THEN conjunct2, THEN conjunct1]
  note rh = big [THEN conjunct2, THEN conjunct2, THEN conjunct2, THEN conjunct2, THEN conjunct1]
  note sl = big [THEN conjunct2, THEN conjunct2, THEN conjunct2, THEN conjunct2, THEN conjunct2,
                 THEN conjunct1]
  note sh = big [THEN conjunct2, THEN conjunct2, THEN conjunct2, THEN conjunct2, THEN conjunct2,
                 THEN conjunct2, THEN conjunct1]
  note cells = big [THEN conjunct2, THEN conjunct2, THEN conjunct2, THEN conjunct2,
                    THEN conjunct2, THEN conjunct2, THEN conjunct2, THEN conjunct1, rule_format]
  have c0: "lo ! 0 ! 0 = Some (10 - 4 / 5 * sqrt 2)" "hi ! 0 ! 0 = Some (10 + 4 / 5 * sqrt 2)"
    using cells [of 0 0] by (simp_all add: normality3_def exact_def)
  have c1: "lo ! 1 ! 0 = Some (16 / 5)" "hi ! 1 ! 0 = Some (24 / 5)"
    using cells [of 1 0] by (simp_all add: normality3_def exact_def)
  have c2: "lo ! 2 ! 0 = Some (26 / 5)" "hi ! 2 ! 0 = Some (34 / 5)"
    using cells [of 2 0] by (simp_all add: normality3_def exact_def)
  have s3: "nm_sigmah_rec normality3 = [[Some (sqrt 2)], [Some 1], [Some 1]]"
    by (simp add: normality3_def)
  have first: "\<exists>res' lo hi.
      Normality_get_prediction_levels exact ppf_standin normality3 res3 [80, 95] = Inr res' \<and>
      res' Sigmah = Some (A2 [[Some (sqrt 2)], [Some 1], [Some 1]]) \<and>
      res' (Lo 80) = Some (A2 lo) \<and> res' (Hi 80) = Some (A2 hi) \<and>
      is_matrix 3 1 lo \<and> is_matrix 3 1 hi \<and>
      lo ! 0 ! 0 = Some (10 - 4 / 5 * sqrt 2) \<and> hi ! 0 ! 0 = Some (10 + 4 / 5 * sqrt 2) \<and>
      lo ! 1 ! 0 = Some (16 / 5) \<and> hi ! 1 ! 0 = Some (24 / 5) \<and>
      lo ! 2 ! 0 = Some (26 / 5) \<and> hi ! 2 ! 0 = Some (34 / 5)"
    by (rule exI [of _ res'], rule exI [of _ lo], rule exI [of _ hi])
       (intro conjI; (rule r rs [unfolded s3] rl rh sl sh c0 c1 c2))
  have a': "res1 Mean = Some (A2 [[Some 4]])"
    by (simp add: res1_def)
  have b': "is_matrix 1 1 [[Some (4 :: real)]]"
    by (simp add: is_matrix_def)
  have c': "is_matrix 1 1 (nm_sigmah_rec normality1)"
    by (simp add: is_matrix_def normality1_def)
  have d': "80 \<in> set [80 :: real]"
    by simp
  have e': "2885797576521369 / 2 ^ 51 = ppf_table (fadd float64 (1 / 2) (fdiv float64 80 200))"
    by (simp only: float64_level_90) (simp add: ppf_table_def)
  from Normality_get_prediction_levels_intervals
         [where ar = float64 and ppf = ppf_table and z = "2885797576521369 / 2 ^ 51" and lv = 80
            and level = "[80]" and self = normality1 and res = res1 and N = 1 and H = 1
            and mean = "[[Some 4]]", OF a' b' c' d' e']
  obtain res'' lo' hi' where big': "Normality_get_prediction_levels float64 ppf_table normality1 res1 [80] = Inr res'' \<and>
           res'' Sigmah = Some (A2 (nm_sigmah_rec normality1)) \<and> res'' Mean = Some (A2 [[Some 4]]) \<and>
           res'' (Lo 80) = Some (A2 lo') \<and> res'' (Hi 80) = Some (A2 hi') \<and>
           is_matrix 1 1 lo' \<and> is_matrix 1 1 hi' \<and>
           (\<forall>i<1. \<forall>t<1.
              lo' ! i ! t = (case ([[Some 4]] ! i ! t, nm_sigmah_rec normality1 ! i ! t) of
                              (Some m, Some s) \<Rightarrow> Some (fsub float64 m (fmul float64 (2885797576521369 / 2 ^ 51) s))
                            | _ \<Rightarrow> None) \<and>
              hi' ! i ! t = (case ([[Some 4]] ! i ! t, nm_sigmah_rec normality1 ! i ! t) of
                              (Some m, Some s) \<Rightarrow> Some (fadd float64 m (fmul float64 (2885797576521369 / 2 ^ 51) s))
                            | _ \<Rightarrow> None)) \<and>
           (float64 = exact \<longrightarrow>
              (\<forall>i<1. \<forall>t<1. \<forall>m s.
                 [[Some 4]] ! i ! t = Some m \<and> nm_sigmah_rec normality1 ! i ! t = Some s \<longrightarrow>
                 (\<exists>l h. lo' ! i ! t = Some l \<and> hi' ! i ! t = Some h \<and>
                    l = m - (2885797576521369 / 2 ^ 51) * s \<and> h = m + (2885797576521369 / 2 ^ 51) * s \<and> h - m = m - l))) \<and>
           (float64 = float64 \<longrightarrow>
              (\<forall>i<1. \<forall>t<1. \<forall>m s.
                 [[Some 4]] ! i ! t = Some m \<and> nm_sigmah_rec normality1 ! i ! t = Some s \<longrightarrow>
                 (\<exists>l h. lo' ! i ! t = Some l \<and> hi' ! i ! t = Some h \<and>
                    l = binary64 (m - binary64 ((2885797576521369 / 2 ^ 51) * s)) \<and> h = binary64 (m + binary64 ((2885797576521369 / 2 ^ 51) * s)) \<and>
                    \<bar>(h - m) - (m - l)\<bar>
                      \<le> (\<bar>m + binary64 ((2885797576521369 / 2 ^ 51) * s)\<bar> + \<bar>m - binary64 ((2885797576521369 / 2 ^ 51) * s)\<bar>) / 2 ^ 53
                         + 1 / 2 ^ 1074)))"
    by (elim exE)
  note r' = big' [THEN conjunct1]
  note rs' = big' [THEN conjunct2, THEN conjunct1]
  note rl' = big' [THEN conjunct2, THEN conjunct2, THEN conjunct2, THEN conjunct1]
  note rh' = big' [THEN conjunct2, THEN conjunct2, THEN conjunct2, THEN conjunct2, THEN conjunct1]
  note sl' = big' [THEN conjunct2, THEN conjunct2, THEN conjunct2, THEN conjunct2, THEN conjunct2,
                   THEN conjunct1]
  note sh' = big' [THEN conjunct2, THEN conjunct2, THEN conjunct2, THEN conjunct2, THEN conjunct2,
                   THEN conjunct2, THEN conjunct1]
  note fl = big' [THEN conjunct2, THEN conjunct2, THEN conjunct2, THEN conjunct2, THEN conjunct2,
                  THEN conjunct2, THEN conjunct2, THEN conjunct2, THEN conjunct2, rule_format]
  have s1: "nm_sigmah_rec normality1 = [[Some 1]]"
    by (simp add: normality1_def)
  have cell: "[[Some (4 :: real)]] ! 0 ! 0 = Some 4 \<and> nm_sigmah_rec normality1 ! 0 ! 0 = Some 1"
    by (simp add: normality1_def)
  have "\<exists>l h. lo' ! 0 ! 0 = Some l \<and> hi' ! 0 ! 0 = Some h \<and>
          l = binary64 (4 - binary64 (2885797576521369 / 2 ^ 51 * 1)) \<and>
          h = binary64 (4 + binary64 (2885797576521369 / 2 ^ 51 * 1)) \<and>
          \<bar>(h - 4) - (4 - l)\<bar>
            \<le> (\<bar>4 + binary64 (2885797576521369 / 2 ^ 51 * 1)\<bar>
                 + \<bar>4 - binary64 (2885797576521369 / 2 ^ 51 * 1)\<bar>) / 2 ^ 53 + 1 / 2 ^ 1074"
    by (rule fl [of 0 0 4 1], rule refl, simp, simp, rule cell)
  then obtain l h where
    l: "lo' ! 0 ! 0 = Some l" and h: "hi' ! 0 ! 0 = Some h"
    and lv: "l = binary64 (4 - binary64 (2885797576521369 / 2 ^ 51 * 1))"
    and hv: "h = binary64 (4 + binary64 (2885797576521369 / 2 ^ 51 * 1))"
    and bd: "\<bar>(h - 4) - (4 - l)\<bar>
               \<le> (\<bar>4 + binary64 (2885797576521369 / 2 ^ 51 * 1)\<bar>
                    + \<bar>4 - binary64 (2885797576521369 / 2 ^ 51 * 1)\<bar>) / 2 ^ 53 + 1 / 2 ^ 1074"
    by (elim exE conjE)
  have z1: "binary64 (2885797576521369 / 2 ^ 51 * 1) = 2885797576521369 / 2 ^ 51"
    by (simp only: mult_1_right binary64_z90)
  have l0: "l = 6121401678219623 / 2 ^ 51"
    unfolding lv using float64_lo_90 by (simp only: float64_def arith.simps)
  have h0: "h = 1486624603907795 / 2 ^ 48"
    unfolding hv using float64_hi_90 by (simp only: float64_def arith.simps)
  have second: "\<exists>res' lo hi.
      Normality_get_prediction_levels float64 ppf_table normality1 res1 [80] = Inr res' \<and>
      res' Sigmah = Some (A2 [[Some 1]]) \<and>
      res' (Lo 80) = Some (A2 lo) \<and> res' (Hi 80) = Some (A2 hi) \<and>
      is_matrix 1 1 lo \<and> is_matrix 1 1 hi \<and>
      lo ! 0 ! 0 = Some (6121401678219623 / 2 ^ 51) \<and>
      hi ! 0 ! 0 = Some (1486624603907795 / 2 ^ 48) \<and>
      \<bar>(1486624603907795 / 2 ^ 48 - 4) - (4 - 6121401678219623 / 2 ^ 51)\<bar>
        \<le> (\<bar>4 + 2885797576521369 / 2 ^ 51\<bar> + \<bar>4 - 2885797576521369 / 2 ^ 51\<bar>) / 2 ^ 53
           + (1 :: real) / 2 ^ 1074"
    by (rule exI [of _ res''], rule exI [of _ lo'], rule exI [of _ hi'])
       (intro conjI; (rule r' rs' [unfolded s1] rl' rh' sl' sh' l [unfolded l0] h [unfolded h0]
                           bd [unfolded z1 l0 h0]))
  show ?thesis
    by (intro conjI; (rule a b c d e first a' b' c' e' second))
qed

subsection \<open>Prediction quantiles\<close>



subsection \<open>Failures\<close>

text \<open>
  C5. When the residuals, after the columns with a missing value are dropped, have no
  more columns than the horizon, the range of starting indices is empty and
  \<^verbatim>\<open>Bootstrap.get_samples\<close> raises: the result is an error, never an array. Unless
  \<^verbatim>\<open>num_samples\<close> is zero the error is the \<open>ValueError\<close> of \<^verbatim>\<open>choice\<close> on the empty range.
\<close>

theorem Bootstrap_get_samples_short_residuals:
  assumes "nan_sub (bs_y_insample self) (bs_y_hat_insample self) = Inr R"
    and "ncols (complete_columns R) \<le> ncols (bs_y_hat self)"
  shows "(\<exists>e. Bootstrap_get_samples RandomState self num_samples = Inl e) \<and>
         (num_samples \<noteq> Some 0 \<longrightarrow>
            Bootstrap_get_samples RandomState self num_samples = Inl ValueError)"
proof -
  have idx: "arange (int (ncols (complete_columns R)) - int (ncols (bs_y_hat self))) = []"
    using assms(2) by (simp add: arange_def)
  show ?thesis
  proof (cases num_samples)
    case None
    then show ?thesis
      using assms(1) idx by (simp add: Bootstrap_get_samples_def bind_err_def Let_def)
  next
    case (Some n)
    show ?thesis
    proof (cases "n = 0")
      case True
      then show ?thesis
        using assms(1) idx Some
        by (simp add: Bootstrap_get_samples_def bind_err_def Let_def choice_def
            apply_along_axis_1_def split: sum.splits)
    next
      case False
      then show ?thesis
        using assms(1) idx Some
        by (simp add: Bootstrap_get_samples_def bind_err_def Let_def choice_def)
    qed
  qed
qed

theorem Bootstrap_get_samples_short_residuals_witness:
  "nan_sub (bs_y_insample bootstrap_short) (bs_y_hat_insample bootstrap_short) = Inr [[Some 1], [Some 1], [Some 0]] \<and>
   ncols (complete_columns [[Some 1], [Some 1], [Some 0]]) \<le> ncols (bs_y_hat bootstrap_short) \<and>
   Bootstrap_get_samples seeded bootstrap_short (Some 2) = Inl ValueError"
proof -
  have a: "nan_sub (bs_y_insample bootstrap_short) (bs_y_hat_insample bootstrap_short)
             = Inr [[Some 1], [Some 1], [Some 0]]"
    by (simp add: bootstrap_short_def nan_sub_def ncols_def)
  have b: "ncols (complete_columns [[Some 1], [Some 1], [Some (0::real)]])
             \<le> ncols (bs_y_hat bootstrap_short)"
    by (simp add: bootstrap_short_def y_hat3_def complete_columns_def nan_free_columns_def ncols_def)
  show ?thesis
    using a b Bootstrap_get_samples_short_residuals [OF a b, of seeded "Some 2"] by simp
qed




text \<open>
  C10. \<^verbatim>\<open>PERMBU.get_samples\<close> with \<^verbatim>\<open>num_samples=None\<close> raises \<open>TypeError\<close> at the comparison
  with the number of residual columns, once the residuals have been computed: nothing has
  been drawn from the process-wide generator, and the statement that would replace
  \<^verbatim>\<open>None\<close> by the number of residual columns is not reached. The same happens through
  \<^verbatim>\<open>get_prediction_levels\<close> and \<^verbatim>\<open>get_prediction_quantiles\<close> of an instance constructed with
  the default \<^verbatim>\<open>num_samples=None\<close>.
\<close>

theorem PERMBU_get_samples_None:
  assumes "nan_sub (pb_y_insample self) (pb_y_hat_insample self) = Inr R"
  shows "PERMBU_get_samples RandomState g self None = (Inl TypeError, g) \<and>
         (pb_num_samples self = None \<longrightarrow>
            PERMBU_get_prediction_levels RandomState g self res level = (Inl TypeError, g) \<and>
            PERMBU_get_prediction_quantiles RandomState g self res quantiles = (Inl TypeError, g))"
proof -
  have call: "PERMBU_get_samples RandomState g self None = (Inl TypeError, g)"
    using assms by (simp add: PERMBU_get_samples_def py_gt_def Let_def)
  then show ?thesis
    by (simp add: PERMBU_get_prediction_levels_def PERMBU_get_prediction_quantiles_def)
qed

theorem PERMBU_get_samples_None_witness:
  "nan_sub (pb_y_insample permbu3) (pb_y_hat_insample permbu3)
     = Inr [[Some 0, Some 1], [Some 0, Some 1], [Some 1, Some 0]] \<and>
   pb_num_samples permbu3 = None \<and>
   PERMBU_get_samples seeded global_zeros permbu3 None = (Inl TypeError, global_zeros) \<and>
   PERMBU_get_prediction_levels seeded global_zeros permbu3 Map.empty [80]
     = (Inl TypeError, global_zeros) \<and>
   PERMBU_get_prediction_quantiles seeded global_zeros permbu3 Map.empty [1 / 2]
     = (Inl TypeError, global_zeros)"
proof -
  have a: "nan_sub (pb_y_insample permbu3) (pb_y_hat_insample permbu3)
             = Inr [[Some 0, Some 1], [Some 0, Some 1], [Some 1, Some 0]]"
    by (simp add: permbu3_def nan_sub_def ncols_def)
  have b: "pb_num_samples permbu3 = None"
    by (simp add: permbu3_def)
  show ?thesis
    using a b PERMBU_get_samples_None [OF a, of seeded global_zeros Map.empty "[80]" "[1 / 2]"]
    by simp
qed



end
